(* ===== verification/Prelude.thy ===== *)
theory Prelude
  imports Complex_Main "HOL-Library.Sublist" "HOL-Library.Word"
begin

text \<open>
  Shared vocabulary of the QuickView launcher model (\<^verbatim>\<open>src/src-tauri/src/main.rs\<close>).
  Rust strings (\<^verbatim>\<open>String\<close>, \<^verbatim>\<open>&str\<close>) are modelled as lists of code points, written as
  Isabelle \<open>char\<close>s, so the model covers the code points 0 to 255 (ASCII and Latin-1), which
  include every character the launcher matches on.  A Rust panic is a value of the datatype
  \<open>panic\<close>, and a computation that may panic returns \<open>panic + 'a\<close> (\<open>Inl\<close> the panic),
  threaded with \<open>pbind\<close>, the \<open>?\<close>-free sequencing of the code.  The collection
  \<open>launcher_simps\<close> gathers the equations the component proofs share.
\<close>

named_theorems launcher_simps "equations shared by the launcher component proofs"

type_synonym rstr = "char list"

subsection \<open>Panics\<close>

text \<open>
  The panics the launcher can raise: \<^verbatim>\<open>Option::unwrap\<close> on \<^verbatim>\<open>None\<close>,
  \<^verbatim>\<open>Result::expect\<close> on \<^verbatim>\<open>Err\<close> (with the message the code passes), and an
  out-of-range \<^verbatim>\<open>Vec\<close> index (with the length and the index, as Rust reports them).
\<close>

datatype panic =
    Unwrap_none
  | Expect_failed rstr
  | Index_out_of_bounds nat nat

type_synonym 'a fallible = "panic + 'a"

definition pbind :: "'a fallible \<Rightarrow> ('a \<Rightarrow> 'b fallible) \<Rightarrow> 'b fallible" where
  "pbind m f = (case m of Inl p \<Rightarrow> Inl p | Inr a \<Rightarrow> f a)"

lemma pbind_Inl [simp]: "pbind (Inl p) f = Inl p"
  by (simp add: pbind_def)

lemma pbind_Inr [simp]: "pbind (Inr a) f = f a"
  by (simp add: pbind_def)

subsection \<open>Lists\<close>

text \<open>Generic facts on lists and on the prefix and substring orders that the string model uses.\<close>

lemma sublist_singleton_iff [launcher_simps]: "sublist [c] s \<longleftrightarrow> c \<in> set s"
  by (induction s) (auto simp: sublist_Cons_right)

lemma takeWhile_append_not_in [launcher_simps]:
  "c \<notin> set a \<Longrightarrow> takeWhile (\<lambda>x. x \<noteq> c) (a @ c # b) = a"
  by (induction a) auto

lemma dropWhile_append_not_in:
  "c \<notin> set a \<Longrightarrow> dropWhile (\<lambda>x. x \<noteq> c) (a @ c # b) = c # b"
  by (induction a) auto

lemma prefix_iff_take: "prefix xs ys \<longleftrightarrow> take (length xs) ys = xs"
proof
  assume "prefix xs ys"
  then obtain zs where "ys = xs @ zs" by (auto simp: prefix_def)
  then show "take (length xs) ys = xs" by simp
next
  assume "take (length xs) ys = xs"
  then have "ys = xs @ drop (length xs) ys" by (metis append_take_drop_id)
  then show "prefix xs ys" by (rule prefixI)
qed

lemma ex_le_Suc_iff: "(\<exists>i\<le>Suc n. Q i) \<longleftrightarrow> Q 0 \<or> (\<exists>i\<le>n. Q (Suc i))"
proof
  assume "\<exists>i\<le>Suc n. Q i"
  then obtain i where i: "i \<le> Suc n" "Q i" by blast
  show "Q 0 \<or> (\<exists>i\<le>n. Q (Suc i))"
  proof (cases i)
    case 0
    with i show ?thesis by simp
  next
    case (Suc j)
    with i show ?thesis by auto
  qed
next
  assume "Q 0 \<or> (\<exists>i\<le>n. Q (Suc i))"
  then show "\<exists>i\<le>Suc n. Q i" by (metis Suc_le_mono zero_le)
qed

lemma dropWhile_hd_not: "dropWhile P xs \<noteq> [] \<Longrightarrow> \<not> P (hd (dropWhile P xs))"
  by (induction xs) auto

lemma dropWhile_snoc_keep: "\<not> P x \<Longrightarrow> dropWhile P (zs @ [x]) = dropWhile P zs @ [x]"
  by (induction zs) auto

lemma dropWhile_prefix_all: "\<exists>a. xs = a @ dropWhile P xs \<and> (\<forall>c\<in>set a. P c)"
proof
  show "xs = takeWhile P xs @ dropWhile P xs \<and> (\<forall>c\<in>set (takeWhile P xs). P c)"
    by (auto dest: set_takeWhileD)
qed

subsection \<open>Maxima of finite sets\<close>

lemma le_Max_insert: "finite T \<Longrightarrow> x \<le> b \<Longrightarrow> x \<le> Max (insert b T)"
  by (meson Max_ge finite_insert insertI1 order.trans)

end
