(* ===== verification/Rust_Str.thy ===== *)
theory Rust_Str
  imports Prelude
begin

text \<open>
  The standard-library string and vector operations that the event router of
  \<^verbatim>\<open>main.rs\<close> calls on a stdout line (lines 84 to 87):
  \<^verbatim>\<open>str::contains\<close>, \<^verbatim>\<open>str::split\<close> with a string pattern, \<^verbatim>\<open>Vec\<close>
  indexing and \<^verbatim>\<open>str::trim\<close>.  Each is an executable definition; the lemmas give
  \<open>str_contains\<close> against the substring order of \<open>HOL-Library.Sublist\<close>, the
  join/split round trip, the number of pieces \<open>split\<close> yields, the exact pieces for a
  one-character pattern, and the bounds behaviour of indexing and trimming.
\<close>

subsection \<open>\<^verbatim>\<open>str::contains\<close>\<close>

text \<open>
  The search tries each start position from the left, as the specification of
  \<^verbatim>\<open>str::contains\<close> describes it (the standard library runs the Two-Way algorithm,
  which answers the same question).
\<close>

fun str_contains :: "rstr \<Rightarrow> rstr \<Rightarrow> bool" where
  "str_contains [] pat = (pat = [])"
| "str_contains (c # cs) pat = (prefix pat (c # cs) \<or> str_contains cs pat)"

subsection \<open>\<^verbatim>\<open>str::split\<close>\<close>

text \<open>
  \<open>split_scan pat acc s\<close> scans \<open>s\<close> left to right, with the current piece reversed in
  \<open>acc\<close>; at a match of the non-empty pattern it closes the piece and skips the match, so
  matches do not overlap.  An empty pattern matches at every character boundary, so
  \<^verbatim>\<open>"ab".split("")\<close> is \<^verbatim>\<open>["", "a", "b", ""]\<close>.
\<close>

function split_scan :: "rstr \<Rightarrow> rstr \<Rightarrow> rstr \<Rightarrow> rstr list" where
  "split_scan pat acc s =
     (if pat \<noteq> [] \<and> prefix pat s
      then rev acc # split_scan pat [] (drop (length pat) s)
      else (case s of
              [] \<Rightarrow> [rev acc]
            | c # cs \<Rightarrow> split_scan pat (c # acc) cs))"
  by pat_completeness auto
termination
proof (relation "measure (\<lambda>(pat, acc, s). length s)")
  show "wf (measure (\<lambda>(pat, acc, s). length s))" by simp
next
  fix pat acc s :: rstr
  assume "pat \<noteq> [] \<and> prefix pat s"
  then have "length pat \<le> length s" and "0 < length pat"
    by (auto dest: prefix_length_le)
  then have "length s - length pat < length s" by linarith
  then show "((pat, [], drop (length pat) s), pat, acc, s) \<in> measure (\<lambda>(pat, acc, s). length s)"
    by simp
next
  fix pat acc s c cs :: rstr and x :: char
  assume "s = x # cs"
  then show "((pat, x # acc, cs), pat, acc, s) \<in> measure (\<lambda>(pat, acc, s). length s)"
    by simp
qed

declare split_scan.simps [simp del]

definition str_split :: "rstr \<Rightarrow> rstr \<Rightarrow> rstr list" where
  "str_split pat s =
     (if pat = [] then [] # map (\<lambda>c. [c]) s @ [[]] else split_scan pat [] s)"

subsection \<open>\<^verbatim>\<open>Vec\<close> indexing and \<^verbatim>\<open>str::trim\<close>\<close>

text \<open>\<^verbatim>\<open>v[i]\<close> panics when \<open>i\<close> is not below the length.\<close>

definition vec_index :: "'a list \<Rightarrow> nat \<Rightarrow> 'a fallible" where
  "vec_index xs i =
     (if i < length xs then Inr (xs ! i) else Inl (Index_out_of_bounds (length xs) i))"

text \<open>
  \<^verbatim>\<open>char::is_whitespace\<close> is the Unicode \<^verbatim>\<open>White_Space\<close> property; its members
  among the code points 0 to 255 are TAB, LF, VT, FF, CR, space, NEL (0x85) and NBSP (0xA0).
  \<^verbatim>\<open>str::trim\<close> removes the longest whitespace prefix and suffix.
\<close>

definition rust_is_whitespace :: "char \<Rightarrow> bool" where
  "rust_is_whitespace c \<longleftrightarrow> of_char c \<in> {9, 10, 11, 12, 13, 32, 0x85, 0xA0 :: nat}"

definition str_trim :: "rstr \<Rightarrow> rstr" where
  "str_trim s = rev (dropWhile rust_is_whitespace (rev (dropWhile rust_is_whitespace s)))"

text \<open>
  \<^verbatim>\<open>[&str]::join\<close>, the inverse of \<open>str_split\<close> (the launcher does not call it; it
  states the round trip).
\<close>

fun str_join :: "rstr \<Rightarrow> rstr list \<Rightarrow> rstr" where
  "str_join sep [] = []"
| "str_join sep [x] = x"
| "str_join sep (x # y # xs) = x @ sep @ str_join sep (y # xs)"

subsection \<open>Lemmas\<close>

text \<open>
  \<open>str_contains\<close> is the substring order of the library; the proofs below and those of
  the router use this form.
\<close>

lemma str_contains_iff_sublist [launcher_simps]: "str_contains s pat \<longleftrightarrow> sublist pat s"
  by (induction s) (auto simp: sublist_Cons_right)

lemma split_scan_Nil [simp]: "split_scan pat acc [] = [rev acc]"
  by (simp add: split_scan.simps)

lemma split_scan_match:
  "pat \<noteq> [] \<Longrightarrow> split_scan pat acc (pat @ rest) = rev acc # split_scan pat [] rest"
  by (simp add: split_scan.simps [of pat acc "pat @ rest"])

lemma split_scan_no_match:
  "\<not> (pat \<noteq> [] \<and> prefix pat (c # cs)) \<Longrightarrow>
   split_scan pat acc (c # cs) = split_scan pat (c # acc) cs"
  by (subst split_scan.simps) auto

lemma split_scan_not_Nil: "split_scan pat acc s \<noteq> []"
  by (induction pat acc s rule: split_scan.induct)
     (subst split_scan.simps, auto split: list.splits)

lemma split_scan_join:
  "str_join pat (split_scan pat acc s) = rev acc @ s"
proof (induction pat acc s rule: split_scan.induct)
  case (1 pat acc s)
  show ?case
  proof (cases "pat \<noteq> [] \<and> prefix pat s")
    case True
    then obtain rest where s: "s = pat @ rest" by (auto simp: prefix_def)
    obtain y ys where eq: "split_scan pat [] rest = y # ys"
      using split_scan_not_Nil by (metis list.exhaust)
    from "1.IH"(1) True s eq have "str_join pat (y # ys) = rest" by simp
    with True s eq show ?thesis by (simp add: split_scan_match)
  next
    case False
    then show ?thesis
      using "1.IH"(2) by (cases s) (simp_all add: split_scan_no_match)
  qed
qed

text \<open>
  Splitting a string at a pattern and joining the pieces with the same pattern gives the
  string back, for every pattern, the empty one included.
\<close>

lemma str_split_join: "str_join pat (str_split pat s) = s"
proof (cases "pat = []")
  case True
  have "str_join [] xs = concat xs" for xs :: "rstr list"
    by (induction "[] :: rstr" xs rule: str_join.induct) simp_all
  with True show ?thesis by (simp add: str_split_def)
next
  case False
  then show ?thesis by (simp add: str_split_def split_scan_join)
qed

lemma split_scan_two_pieces:
  "pat \<noteq> [] \<Longrightarrow> sublist pat s \<Longrightarrow> 2 \<le> length (split_scan pat acc s)"
proof (induction pat acc s rule: split_scan.induct)
  case (1 pat acc s)
  show ?case
  proof (cases "prefix pat s")
    case True
    with "1.prems" split_scan_not_Nil [of pat "[]" "drop (length pat) s"] show ?thesis
      by (simp add: split_scan.simps [of pat acc s] Suc_le_eq)
  next
    case False
    with "1.prems" obtain c cs where s: "s = c # cs" and "sublist pat cs"
      by (cases s) (auto simp: sublist_Cons_right)
    from False s have "split_scan pat acc s = split_scan pat (c # acc) cs"
      by (simp add: split_scan_no_match)
    with False s "1.IH"(2) "1.prems"(1) \<open>sublist pat cs\<close> show ?thesis
      by simp
  qed
qed

lemma str_split_two_pieces: "sublist pat s \<Longrightarrow> 2 \<le> length (str_split pat s)"
  by (cases "pat = []") (simp_all add: str_split_def split_scan_two_pieces)

lemma split_scan_char_none:
  "c \<notin> set s \<Longrightarrow> split_scan [c] acc s = [rev acc @ s]"
  by (induction s arbitrary: acc) (simp_all add: split_scan.simps)

lemma split_scan_char_first:
  "c \<notin> set a \<Longrightarrow> split_scan [c] acc (a @ c # b) = (rev acc @ a) # split_scan [c] [] b"
  by (induction a arbitrary: acc) (simp_all add: split_scan.simps)

lemma str_split_char_first:
  "c \<notin> set a \<Longrightarrow> str_split [c] (a @ c # b) = a # str_split [c] b"
  by (simp add: str_split_def split_scan_char_first)

lemma str_split_char_none: "c \<notin> set s \<Longrightarrow> str_split [c] s = [s]"
  by (simp add: str_split_def split_scan_char_none)

lemma str_split_char_count: "length (str_split [c] s) = Suc (count_list s c)"
proof (induction "count_list s c" arbitrary: s)
  case 0
  then have "c \<notin> set s" by (simp add: count_list_0_iff)
  then show ?case using 0 by (simp add: str_split_char_none)
next
  case (Suc n)
  then have "c \<in> set s" by (metis count_list_0_iff nat.distinct(1))
  then obtain a b where s: "s = a @ c # b" and a: "c \<notin> set a"
    by (metis split_list_first)
  with Suc.hyps(2) have "count_list b c = n" by simp
  with Suc.hyps(1) s a show ?case by (simp add: str_split_char_first)
qed

lemma sublist_prefix_drop: "sublist p t \<Longrightarrow> \<exists>j. j + length p \<le> length t \<and> prefix p (drop j t)"
proof -
  assume "sublist p t"
  then obtain ps ss where t: "t = ps @ p @ ss" by (auto simp: sublist_def)
  then have "length ps + length p \<le> length t" and "prefix p (drop (length ps) t)" by simp_all
  then show ?thesis by blast
qed

lemma prefix_drop_append: "prefix p (drop j t) \<Longrightarrow> prefix p (drop j (t @ r))"
proof -
  assume "prefix p (drop j t)"
  then obtain z where "drop j t = p @ z" by (auto simp: prefix_def)
  moreover have "drop j (t @ r) = drop j t @ drop (j - length t) r" by simp
  ultimately show ?thesis by simp
qed

lemma split_scan_pieces:
  assumes "pat \<noteq> []"
    and "\<forall>j < length acc. \<not> prefix pat (drop j (rev acc @ s))"
    and "t \<in> set (split_scan pat acc s)"
  shows "\<not> sublist pat t"
  using assms
proof (induction pat acc s rule: split_scan.induct)
  case (1 pat acc s)
  have piece_ok: "\<not> sublist pat (rev acc)"
  proof
    assume "sublist pat (rev acc)"
    then obtain j where j: "j + length pat \<le> length acc" "prefix pat (drop j (rev acc))"
      using sublist_prefix_drop by fastforce
    then have "j < length acc" using "1.prems"(1) by (cases pat) auto
    moreover from j(2) have "prefix pat (drop j (rev acc @ s))" by (rule prefix_drop_append)
    ultimately show False using "1.prems"(2) by blast
  qed
  show ?case
  proof (cases "prefix pat s")
    case True
    then obtain rest where s: "s = pat @ rest" by (auto simp: prefix_def)
    from "1.prems"(3) s "1.prems"(1) have "t = rev acc \<or> t \<in> set (split_scan pat [] rest)"
      by (simp add: split_scan_match)
    then show ?thesis
    proof
      assume "t = rev acc"
      with piece_ok show ?thesis by simp
    next
      assume "t \<in> set (split_scan pat [] rest)"
      with "1.IH"(1) "1.prems"(1) True s show ?thesis by simp
    qed
  next
    case False
    show ?thesis
    proof (cases s)
      case Nil
      with "1.prems"(3) piece_ok show ?thesis by simp
    next
      case (Cons c cs)
      have inv: "\<forall>j < length (c # acc). \<not> prefix pat (drop j (rev (c # acc) @ cs))"
      proof (intro allI impI)
        fix j assume "j < length (c # acc)"
        then consider "j < length acc" | "j = length acc" by fastforce
        then show "\<not> prefix pat (drop j (rev (c # acc) @ cs))"
        proof cases
          case 1
          with "1.prems"(2) Cons show ?thesis by simp
        next
          case 2
          with False Cons show ?thesis by simp
        qed
      qed
      from "1.prems"(3) False Cons have "t \<in> set (split_scan pat (c # acc) cs)"
        by (simp add: split_scan_no_match)
      with "1.IH"(2) "1.prems"(1) False Cons inv show ?thesis by simp
    qed
  qed
qed

text \<open>
  For a non-empty pattern, no piece of a split contains the pattern: the scan tries every
  start position of a piece, so an occurrence inside a piece would have been a split point.
\<close>

lemma str_split_pieces:
  "pat \<noteq> [] \<Longrightarrow> t \<in> set (str_split pat s) \<Longrightarrow> \<not> sublist pat t"
  using split_scan_pieces [of pat "[]" s t] by (simp add: str_split_def)

subsubsection \<open>Trimming\<close>

lemma str_trim_last:
  "str_trim s \<noteq> [] \<Longrightarrow> \<not> rust_is_whitespace (last (str_trim s))"
  by (simp add: str_trim_def last_rev dropWhile_hd_not)

lemma str_trim_hd:
  assumes ne: "str_trim s \<noteq> []"
  shows "\<not> rust_is_whitespace (hd (str_trim s))"
proof -
  let ?d = "dropWhile rust_is_whitespace s"
  have "?d \<noteq> []"
  proof
    assume "?d = []"
    with ne show False by (simp add: str_trim_def)
  qed
  then obtain x xs where d: "?d = x # xs" by (cases ?d) auto
  from \<open>?d \<noteq> []\<close> d have x: "\<not> rust_is_whitespace x"
    using dropWhile_hd_not [of rust_is_whitespace s] by simp
  then have "str_trim s = x # rev (dropWhile rust_is_whitespace (rev xs))"
    by (simp add: str_trim_def d dropWhile_snoc_keep)
  with x show ?thesis by simp
qed

lemma str_trim_decompose:
  "\<exists>a b. s = a @ str_trim s @ b \<and> (\<forall>c\<in>set a. rust_is_whitespace c)
               \<and> (\<forall>c\<in>set b. rust_is_whitespace c)"
proof -
  obtain a where a: "s = a @ dropWhile rust_is_whitespace s" "\<forall>c\<in>set a. rust_is_whitespace c"
    using dropWhile_prefix_all [where P = rust_is_whitespace] by blast
  obtain b where b: "rev (dropWhile rust_is_whitespace s)
       = b @ dropWhile rust_is_whitespace (rev (dropWhile rust_is_whitespace s))"
      "\<forall>c\<in>set b. rust_is_whitespace c"
    using dropWhile_prefix_all [where P = rust_is_whitespace] by blast
  from b(1) have "rev (rev (dropWhile rust_is_whitespace s))
      = rev (b @ dropWhile rust_is_whitespace (rev (dropWhile rust_is_whitespace s)))"
    by (rule arg_cong)
  then have d: "dropWhile rust_is_whitespace s = str_trim s @ rev b"
    by (simp add: str_trim_def)
  have "s = a @ str_trim s @ rev b" by (rule a(1) [unfolded d])
  moreover from b(2) have "\<forall>c\<in>set (rev b). rust_is_whitespace c" by simp
  ultimately show ?thesis using a(2) by blast
qed

lemma set_str_trim: "set (str_trim s) \<subseteq> set s"
proof -
  obtain a b where "s = a @ str_trim s @ b" using str_trim_decompose by blast
  then have "set s = set a \<union> set (str_trim s) \<union> set b" by (metis set_append Un_assoc)
  then show ?thesis by blast
qed

text \<open>
  Trimming is idempotent: a trimmed string has nothing left to trim.
\<close>

lemma str_trim_idem: "str_trim (str_trim s) = str_trim s"
proof (cases "str_trim s = []")
  case True
  have "str_trim [] = []" by (simp add: str_trim_def)
  with True show ?thesis by simp
next
  case False
  let ?t = "str_trim s"
  have h: "dropWhile rust_is_whitespace ?t = ?t"
    using False str_trim_hd [OF False] by (cases ?t) auto
  have l: "dropWhile rust_is_whitespace (rev ?t) = rev ?t"
    using False str_trim_last [OF False] by (cases "rev ?t") (auto simp: last_rev [symmetric])
  show ?thesis by (simp add: str_trim_def [of ?t] h l)
qed

text \<open>
  The contract of \<^verbatim>\<open>str::trim\<close>: the result is the string with a whitespace prefix
  and a whitespace suffix removed, and it neither starts nor ends with whitespace.
\<close>

lemma str_trim_spec:
  "\<exists>a b. s = a @ str_trim s @ b \<and> list_all rust_is_whitespace a \<and> list_all rust_is_whitespace b
         \<and> (str_trim s = [] \<or> \<not> rust_is_whitespace (hd (str_trim s))
                              \<and> \<not> rust_is_whitespace (last (str_trim s)))"
  using str_trim_decompose str_trim_hd str_trim_last by (simp add: list_all_iff) blast

subsubsection \<open>Searching\<close>

text \<open>
  The left-to-right search \<open>str_contains\<close> agrees with the positional definition of a
  substring: the pattern occurs at some offset of the string.
\<close>

lemma str_contains_positional:
  "str_contains s pat \<longleftrightarrow> (\<exists>i\<le>length s. take (length pat) (drop i s) = pat)"
proof (induction s)
  case Nil
  then show ?case by auto
next
  case (Cons c cs)
  have "str_contains (c # cs) pat \<longleftrightarrow> take (length pat) (c # cs) = pat \<or> str_contains cs pat"
    by (simp add: prefix_iff_take)
  also have "\<dots> \<longleftrightarrow> (\<exists>i\<le>length (c # cs). take (length pat) (drop i (c # cs)) = pat)"
    by (simp only: Cons.IH length_Cons ex_le_Suc_iff drop_0 drop_Suc_Cons)
  finally show ?case .
qed

end
