(* ===== verification/Sidecar.thy ===== *)
theory Sidecar
  imports Rust_Str
begin

text \<open>
  The process supervisor: the sidecar command that \<^verbatim>\<open>main.rs\<close> builds and spawns
  (lines 69 to 77), the events the spawned child delivers on the receiver \<^verbatim>\<open>rx\<close>
  (Tauri's \<^verbatim>\<open>CommandEvent\<close> and \<^verbatim>\<open>TerminatedPayload\<close>, with the exit code and
  signal kept as 32-bit words since they are \<^verbatim>\<open>i32\<close>), and the lines the launcher prints
  on its own console.  The child process itself and Tauri's reader threads that cut its output
  into lines are not modelled: the model starts from the sequence of events they deliver.
\<close>

subsection \<open>Building and spawning the sidecar command\<close>

record command =
  cmd_program :: rstr
  cmd_args :: "rstr list"
  cmd_env :: "rstr \<rightharpoonup> rstr"

text \<open>
  \<^verbatim>\<open>Command::new_sidecar\<close> fails when the bundled binary cannot be resolved, and
  \<^verbatim>\<open>spawn\<close> fails when the operating system refuses the process; whether either happens
  is a property of the installation, an input \<open>resolves\<close> / \<open>spawn_ok\<close> of the model.
  \<^verbatim>\<open>args\<close> appends to the argument list, \<^verbatim>\<open>envs\<close> installs the environment map.
\<close>

datatype sidecar_error = Sidecar_not_found | Spawn_refused

definition new_sidecar :: "bool \<Rightarrow> rstr \<Rightarrow> sidecar_error + command" where
  "new_sidecar resolves name =
     (if resolves then Inr \<lparr>cmd_program = name, cmd_args = [], cmd_env = Map.empty\<rparr>
      else Inl Sidecar_not_found)"

definition command_args :: "rstr list \<Rightarrow> command \<Rightarrow> command" where
  "command_args xs c = c\<lparr>cmd_args := cmd_args c @ xs\<rparr>"

definition command_envs :: "(rstr \<rightharpoonup> rstr) \<Rightarrow> command \<Rightarrow> command" where
  "command_envs e c = c\<lparr>cmd_env := e\<rparr>"

definition spawn :: "bool \<Rightarrow> command \<Rightarrow> sidecar_error + command" where
  "spawn spawn_ok c = (if spawn_ok then Inr c else Inl Spawn_refused)"

text \<open>\<^verbatim>\<open>Result::expect\<close>: the error becomes a panic with the given message.\<close>

definition result_expect :: "rstr \<Rightarrow> 'e + 'a \<Rightarrow> 'a fallible" where
  "result_expect msg r = (case r of Inl _ \<Rightarrow> Inl (Expect_failed msg) | Inr a \<Rightarrow> Inr a)"

text \<open>The environment and the arguments of lines 69 to 74.\<close>

definition trame_env :: "rstr \<rightharpoonup> rstr" where
  "trame_env = Map.empty(''PYTHONUNBUFFERED'' \<mapsto> ''1'')"

definition trame_args :: "rstr list" where
  "trame_args = [''--server'', ''--port'', ''0'', ''--timeout'', ''10'', ''--user-home'']"

definition launch_sidecar :: "bool \<Rightarrow> bool \<Rightarrow> command fallible" where
  "launch_sidecar resolves spawn_ok =
     pbind (result_expect ''failed to create sidecar'' (new_sidecar resolves ''trame''))
       (\<lambda>c. result_expect ''Failed to spawn server''
               (spawn spawn_ok (command_envs trame_env (command_args trame_args c))))"

subsection \<open>Events delivered by the child\<close>

record terminated_payload =
  code :: "32 word option"
  signal :: "32 word option"

text \<open>
  Tauri's \<^verbatim>\<open>CommandEvent\<close> is \<^verbatim>\<open>#[non_exhaustive]\<close>, which is why the match of
  line 144 has a wildcard arm; \<open>Other_event\<close> stands for the variants a later Tauri adds.
\<close>

datatype command_event =
    Stderr rstr
  | Stdout rstr
  | Error rstr
  | Terminated terminated_payload
  | Other_event

subsection \<open>The launcher's console\<close>

text \<open>
  One constructor per \<^verbatim>\<open>println!\<close> of \<^verbatim>\<open>main.rs\<close>: the display scale (line 26),
  the window resize (line 64), and the four event arms (lines 83, 136, 139, 142).
\<close>

datatype console_line =
    Display_scale real
  | Adjusted_size
  | Stdout_line rstr
  | Stderr_line rstr
  | Trame_error rstr
  | Trame_exited terminated_payload

definition event_console :: "command_event \<Rightarrow> console_line option" where
  "event_console e =
     (case e of
        Stdout l \<Rightarrow> Some (Stdout_line l)
      | Stderr l \<Rightarrow> Some (Stderr_line l)
      | Error err \<Rightarrow> Some (Trame_error err)
      | Terminated p \<Rightarrow> Some (Trame_exited p)
      | Other_event \<Rightarrow> None)"

subsubsection \<open>Rendering: \<^verbatim>\<open>Display\<close> of strings, \<^verbatim>\<open>Debug\<close> of the payload\<close>

text \<open>
  Decimal digits of a natural number, most significant first; the digit characters come from a
  table, as in the standard library's integer formatting.
\<close>

definition dec_digit :: "nat \<Rightarrow> char" where
  "dec_digit d = ''0123456789'' ! d"

fun dec_nat :: "nat \<Rightarrow> rstr" where
  "dec_nat n = (if n < 10 then [dec_digit n] else dec_nat (n div 10) @ [dec_digit (n mod 10)])"

declare dec_nat.simps [simp del]

definition i32_debug :: "32 word \<Rightarrow> rstr" where
  "i32_debug w =
     (if sint w < 0 then ''-'' @ dec_nat (nat (- sint w)) else dec_nat (nat (sint w)))"

definition option_i32_debug :: "32 word option \<Rightarrow> rstr" where
  "option_i32_debug v =
     (case v of None \<Rightarrow> ''None'' | Some w \<Rightarrow> ''Some('' @ i32_debug w @ '')'')"

definition payload_debug :: "terminated_payload \<Rightarrow> rstr" where
  "payload_debug p =
     ''TerminatedPayload { code: '' @ option_i32_debug (code p)
       @ '', signal: '' @ option_i32_debug (signal p) @ '' }''"

text \<open>
  The text of a console line; the display scale is an \<^verbatim>\<open>f64\<close> printed with
  \<^verbatim>\<open>Display\<close>, whose shortest-round-trip decimal form is not modelled (\<open>None\<close>).
\<close>

definition console_text :: "console_line \<Rightarrow> rstr option" where
  "console_text l =
     (case l of
        Display_scale _ \<Rightarrow> None
      | Adjusted_size \<Rightarrow> Some ''Adjusted window size to 1200x800 for Retina display''
      | Stdout_line s \<Rightarrow> Some (''Stdout: '' @ s)
      | Stderr_line s \<Rightarrow> Some (''Stderr: '' @ s)
      | Trame_error s \<Rightarrow> Some (''[Trame error] '' @ s)
      | Trame_exited p \<Rightarrow> Some (''[Trame exited] with code '' @ payload_debug p))"

text \<open>
  Reading the \<^verbatim>\<open>[Trame exited]\<close> line back, as a reader of the launcher's output would:
  the two \<^verbatim>\<open>Option<i32>\<close> fields of the payload as integers.  The launcher itself
  does not parse its output; these functions state what its output says.
\<close>

definition digit_val :: "char \<Rightarrow> nat option" where
  "digit_val c = (let k = (of_char c :: nat) in if 48 \<le> k \<and> k \<le> 57 then Some (k - 48) else None)"

fun parse_digits :: "nat \<Rightarrow> rstr \<Rightarrow> nat option" where
  "parse_digits n [] = Some n"
| "parse_digits n (c # cs) = (case digit_val c of None \<Rightarrow> None | Some d \<Rightarrow> parse_digits (10 * n + d) cs)"

definition parse_dec :: "rstr \<Rightarrow> nat option" where
  "parse_dec s = (if s = [] then None else parse_digits 0 s)"

definition parse_int :: "rstr \<Rightarrow> int option" where
  "parse_int s =
     (case s of
        c # ds \<Rightarrow> if c = CHR ''-'' then map_option (\<lambda>n. - int n) (parse_dec ds)
                 else map_option int (parse_dec s)
      | [] \<Rightarrow> None)"

definition strip_prefix :: "rstr \<Rightarrow> rstr \<Rightarrow> rstr option" where
  "strip_prefix pre s = (if take (length pre) s = pre then Some (drop (length pre) s) else None)"

definition parse_opt_int :: "rstr \<Rightarrow> (int option \<times> rstr) option" where
  "parse_opt_int s =
     (case strip_prefix ''None'' s of
        Some r \<Rightarrow> Some (None, r)
      | None \<Rightarrow>
          (case strip_prefix ''Some('' s of
             None \<Rightarrow> None
           | Some r \<Rightarrow>
               (case dropWhile (\<lambda>c. c \<noteq> CHR '')'') r of
                  [] \<Rightarrow> None
                | _ # r' \<Rightarrow> map_option (\<lambda>v. (Some v, r')) (parse_int (takeWhile (\<lambda>c. c \<noteq> CHR '')'') r)))))"

definition parse_exit_line :: "rstr \<Rightarrow> (int option \<times> int option) option" where
  "parse_exit_line s =
     Option.bind (strip_prefix ''[Trame exited] with code '' s) (\<lambda>r0.
     Option.bind (strip_prefix ''TerminatedPayload { code: '' r0) (\<lambda>r1.
     Option.bind (parse_opt_int r1) (\<lambda>(c, r2).
     Option.bind (strip_prefix '', signal: '' r2) (\<lambda>r3.
     Option.bind (parse_opt_int r3) (\<lambda>(sg, r4).
       if r4 = '' }'' then Some (c, sg) else None)))))"

subsection \<open>Lemmas\<close>

text \<open>The two \<^verbatim>\<open>expect\<close>s of lines 73 and 77, and the command they let through.\<close>

lemma launch_sidecar_eq:
  "launch_sidecar found ok =
     (if \<not> found then Inl (Expect_failed ''failed to create sidecar'')
      else if \<not> ok then Inl (Expect_failed ''Failed to spawn server'')
      else Inr \<lparr>cmd_program = ''trame'', cmd_args = trame_args, cmd_env = trame_env\<rparr>)"
  by (simp add: launch_sidecar_def new_sidecar_def result_expect_def spawn_def command_envs_def
      command_args_def)

subsubsection \<open>Decimal rendering\<close>

lemma of_char_dec_digit: "d < 10 \<Longrightarrow> (of_char (dec_digit d) :: nat) = 48 + d"
proof -
  assume "d < 10"
  then have "d \<in> {0, 1, 2, 3, 4, 5, 6, 7, 8, 9}" by auto
  then show ?thesis by (auto simp: dec_digit_def)
qed

lemma digit_val_digit: "d < 10 \<Longrightarrow> digit_val (dec_digit d) = Some d"
  by (simp add: digit_val_def Let_def of_char_dec_digit)

lemma parse_digits_append: "parse_digits n (xs @ ys) = (case parse_digits n xs of None \<Rightarrow> None | Some m \<Rightarrow> parse_digits m ys)"
  by (induction n xs rule: parse_digits.induct) (auto split: option.splits)

lemma dec_nat_not_Nil: "dec_nat n \<noteq> []"
  by (subst dec_nat.simps) simp

lemma parse_digits_dec_nat0: "parse_digits 0 (dec_nat n) = Some n"
proof (induction n rule: dec_nat.induct)
  case (1 n)
  show ?case
  proof (cases "n < 10")
    case True
    then show ?thesis by (subst dec_nat.simps) (simp add: digit_val_digit)
  next
    case False
    then have "dec_nat n = dec_nat (n div 10) @ [dec_digit (n mod 10)]"
      by (subst dec_nat.simps) simp
    moreover have "parse_digits 0 (dec_nat (n div 10)) = Some (n div 10)" using "1" False by simp
    ultimately show ?thesis by (simp add: parse_digits_append digit_val_digit)
  qed
qed

lemma dec_nat_digits: "c \<in> set (dec_nat n) \<Longrightarrow> 48 \<le> (of_char c :: nat)"
proof (induction n rule: dec_nat.induct)
  case (1 n)
  show ?case
  proof (cases "n < 10")
    case True
    with "1.prems" show ?thesis by (subst (asm) dec_nat.simps) (simp add: of_char_dec_digit)
  next
    case False
    with "1.prems" have "c \<in> set (dec_nat (n div 10)) \<or> c = dec_digit (n mod 10)"
      by (subst (asm) dec_nat.simps) auto
    with "1.IH" False show ?thesis by (auto simp: of_char_dec_digit)
  qed
qed

lemma strip_prefix_append [simp]: "strip_prefix pre (pre @ s) = Some s"
  by (simp add: strip_prefix_def)

lemma parse_dec_dec_nat: "parse_dec (dec_nat n) = Some n"
  by (simp add: parse_dec_def dec_nat_not_Nil parse_digits_dec_nat0)

lemma i32_debug_chars: "c \<in> set (i32_debug w) \<Longrightarrow> c = CHR ''-'' \<or> 48 \<le> (of_char c :: nat)"
  by (auto simp: i32_debug_def dest: dec_nat_digits split: if_splits)

lemma parse_int_i32_debug: "parse_int (i32_debug w) = Some (sint w)"
proof (cases "sint w < 0")
  case True
  then show ?thesis by (simp add: i32_debug_def parse_int_def parse_dec_dec_nat)
next
  case False
  obtain c cs where d: "dec_nat (nat (sint w)) = c # cs"
    using dec_nat_not_Nil by (cases "dec_nat (nat (sint w))") auto
  then have "c \<noteq> CHR ''-''" using dec_nat_digits [of c "nat (sint w)"] by auto
  with False d show ?thesis
    using parse_dec_dec_nat [of "nat (sint w)"] by (simp add: i32_debug_def parse_int_def)
qed

lemma parse_opt_int_debug:
  "parse_opt_int (option_i32_debug v @ r) = Some (map_option sint v, r)"
proof (cases v)
  case None
  then show ?thesis by (simp add: option_i32_debug_def parse_opt_int_def strip_prefix_def)
next
  case (Some w)
  have np: "CHR '')'' \<notin> set (i32_debug w)" using i32_debug_chars [of "CHR '')''" w] by auto
  have "strip_prefix ''None'' (''Some('' @ i32_debug w @ '')'' @ r) = None"
    by (simp add: strip_prefix_def)
  moreover have "dropWhile (\<lambda>c. c \<noteq> CHR '')'') (i32_debug w @ '')'' @ r) = CHR '')'' # r"
    using np by (simp add: dropWhile_append_not_in)
  moreover have "takeWhile (\<lambda>c. c \<noteq> CHR '')'') (i32_debug w @ '')'' @ r) = i32_debug w"
    using np by (simp add: takeWhile_append_not_in)
  ultimately show ?thesis using Some
    by (simp add: option_i32_debug_def parse_opt_int_def parse_int_i32_debug del: strip_prefix_append)
      (simp add: strip_prefix_def parse_int_i32_debug)
qed

text \<open>
  C18. The launcher's exit report is exact: the \<^verbatim>\<open>[Trame exited]\<close> line that line 142
  prints for a termination payload reads back as the child's exit code and signal, each with
  its sign, as the signed 32-bit integers the payload holds (\<^verbatim>\<open>None\<close> when absent).
\<close>

theorem exit_line_roundtrip:
  "Option.bind (console_text (Trame_exited p)) parse_exit_line
     = Some (map_option sint (code p), map_option sint (signal p))"
proof -
  have "console_text (Trame_exited p) = Some (''[Trame exited] with code '' @ payload_debug p)"
    by (simp add: console_text_def)
  then show ?thesis
    by (simp only: parse_exit_line_def payload_debug_def bind.simps strip_prefix_append
        parse_opt_int_debug prod.case if_True) simp
qed

end
