(* ===== verification/Window.thy ===== *)
theory Window
  imports Sidecar
begin

text \<open>
  The window manager side of the launcher: the two windows \<^verbatim>\<open>splashscreen\<close> and
  \<^verbatim>\<open>main\<close> that \<^verbatim>\<open>setup\<close> looks up (lines 15 and 16), the scripts the code evaluates
  in the main webview, and the launcher's console.  \<open>windows\<close> is the window state;
  \<open>ui_state\<close> extends it with the console, and the event router extends that with its
  clock, so every window operation is stated once, for any extension.  The macOS display
  scaling block of \<^verbatim>\<open>setup\<close> (lines 18 to 67) is \<open>dpi_setup\<close>.
\<close>

subsection \<open>Scripts evaluated in the main webview\<close>

text \<open>
  The two display-scaling scripts are fixed texts; the navigation script is the
  \<^verbatim>\<open>format!\<close> of lines 90 to 104, whose only hole is the port, inserted verbatim
  (\<^verbatim>\<open>{{\<close> and \<^verbatim>\<open>}}\<close> of the format string are literal braces).
\<close>

datatype script =
    Dpi_override
  | Navigation rstr
  | Final_dpi_override

definition session_url :: "rstr \<Rightarrow> rstr" where
  "session_url port = ''ws://localhost:'' @ port @ ''/ws''"

definition indent :: "nat \<Rightarrow> rstr" where
  "indent n = replicate n (CHR '' '')"

definition navigation_script_text :: "rstr \<Rightarrow> rstr" where
  "navigation_script_text port = concat
     [''\<newline>'', indent 18,
        ''window.location.replace(window.location.href + '', [CHR 0x27], ''?sessionURL='',
        session_url port, [CHR 0x27], '');'',
      ''\<newline>\<newline>'', indent 18, ''// Ensure DPI override persists after navigation'',
      ''\<newline>'', indent 18, ''window.addEventListener('load', function() {'',
      ''\<newline>'', indent 20, ''Object.defineProperty(window, 'devicePixelRatio', {'',
      ''\<newline>'', indent 22, ''get: function() { return 1; },'',
      ''\<newline>'', indent 22, ''configurable: true'',
      ''\<newline>'', indent 20, ''});'',
      ''\<newline>'', indent 20, ''console.log('Post-navigation DPI override applied');'',
      ''\<newline>'', indent 18, ''});'',
      ''\<newline>'', indent 18]"

subsection \<open>Window state and operations\<close>

text \<open>
  \<open>main_scripts\<close> lists the scripts passed to \<^verbatim>\<open>main_window.eval\<close>, in order; the
  code discards the result of \<^verbatim>\<open>eval\<close> and \<^verbatim>\<open>set_size\<close> (\<^verbatim>\<open>let _ =\<close>), so
  they cannot fail in the model.  \<^verbatim>\<open>close\<close> and \<^verbatim>\<open>show\<close> are unwrapped by the
  code; Tauri reports an error there only when the event loop itself is gone, which the model
  does not include.
\<close>

record windows =
  splash_open :: bool
  main_visible :: bool
  main_scripts :: "script list"
  main_size :: "(real \<times> real) option"

record ui_state = windows +
  console :: "console_line list"

definition eval_main :: "script \<Rightarrow> 'a windows_scheme \<Rightarrow> 'a windows_scheme" where
  "eval_main sc w = w\<lparr>main_scripts := main_scripts w @ [sc]\<rparr>"

definition set_main_size :: "real \<times> real \<Rightarrow> 'a windows_scheme \<Rightarrow> 'a windows_scheme" where
  "set_main_size sz w = w\<lparr>main_size := Some sz\<rparr>"

definition close_splash :: "'a windows_scheme \<Rightarrow> 'a windows_scheme" where
  "close_splash w = w\<lparr>splash_open := False\<rparr>"

definition show_main :: "'a windows_scheme \<Rightarrow> 'a windows_scheme" where
  "show_main w = w\<lparr>main_visible := True\<rparr>"

definition print_line :: "console_line \<Rightarrow> 'a ui_state_scheme \<Rightarrow> 'a ui_state_scheme" where
  "print_line l s = s\<lparr>console := console s @ [l]\<rparr>"

text \<open>
  The windows as the application configuration creates them (not under \<^verbatim>\<open>src/\<close>; the
  specification says the splash window is shown first and the main window is revealed
  later).
\<close>

definition initial_ui :: ui_state where
  "initial_ui = \<lparr>splash_open = True, main_visible = False, main_scripts = [],
                 main_size = None, console = []\<rparr>"

subsection \<open>Display scaling on macOS\<close>

datatype target_os = MacOS | Windows_os | Linux_os | Other_os

text \<open>\<^verbatim>\<open>current_monitor()\<close>: an error, no monitor, or a monitor with its scale factor.\<close>

datatype monitor_lookup = Monitor_error | No_monitor | Monitor real

definition dpi_setup :: "target_os \<Rightarrow> monitor_lookup \<Rightarrow> 'a ui_state_scheme \<Rightarrow> 'a ui_state_scheme" where
  "dpi_setup os mon s =
     (if os = MacOS then
        (case mon of
           Monitor sf \<Rightarrow>
             (let s1 = eval_main Dpi_override (print_line (Display_scale sf) s)
              in if sf > 1.5 then print_line Adjusted_size (set_main_size (1200, 800) s1) else s1)
         | _ \<Rightarrow> s)
      else s)"

subsection \<open>Lemmas\<close>

text \<open>What each window operation changes and what it leaves alone, for any extension of the state.\<close>

lemma eval_main_fields [simp]:
  "main_scripts (eval_main sc w) = main_scripts w @ [sc]"
  "splash_open (eval_main sc w) = splash_open w"
  "main_visible (eval_main sc w) = main_visible w"
  "main_size (eval_main sc w) = main_size w"
  "windows.more (eval_main sc w) = windows.more w"
  by (simp_all add: eval_main_def)

lemma set_main_size_fields [simp]:
  "main_size (set_main_size sz w) = Some sz"
  "main_scripts (set_main_size sz w) = main_scripts w"
  "splash_open (set_main_size sz w) = splash_open w"
  "main_visible (set_main_size sz w) = main_visible w"
  "windows.more (set_main_size sz w) = windows.more w"
  by (simp_all add: set_main_size_def)

lemma close_splash_fields [simp]:
  "splash_open (close_splash w) = False"
  "main_visible (close_splash w) = main_visible w"
  "main_scripts (close_splash w) = main_scripts w"
  "main_size (close_splash w) = main_size w"
  "windows.more (close_splash w) = windows.more w"
  by (simp_all add: close_splash_def)

lemma show_main_fields [simp]:
  "main_visible (show_main w) = True"
  "splash_open (show_main w) = splash_open w"
  "main_scripts (show_main w) = main_scripts w"
  "main_size (show_main w) = main_size w"
  "windows.more (show_main w) = windows.more w"
  by (simp_all add: show_main_def)

lemma print_line_fields [simp]:
  "console (print_line l s) = console s @ [l]"
  "splash_open (print_line l s) = splash_open s"
  "main_visible (print_line l s) = main_visible s"
  "main_scripts (print_line l s) = main_scripts s"
  "main_size (print_line l s) = main_size s"
  "ui_state.more (print_line l s) = ui_state.more s"
  by (simp_all add: print_line_def)

lemma console_window_ops [simp]:
  "console (eval_main sc s) = console s"
  "console (set_main_size sz s) = console s"
  "console (close_splash s) = console s"
  "console (show_main s) = console s"
  "ui_state.more (eval_main sc s) = ui_state.more s"
  "ui_state.more (set_main_size sz s) = ui_state.more s"
  "ui_state.more (close_splash s) = ui_state.more s"
  "ui_state.more (show_main s) = ui_state.more s"
  by (simp_all add: eval_main_def set_main_size_def close_splash_def show_main_def)

lemma dpi_setup_fields [simp]:
  "splash_open (dpi_setup os mon s) = splash_open s"
  "main_visible (dpi_setup os mon s) = main_visible s"
  "console (dpi_setup os mon s) = console s
     @ (case mon of Monitor sf \<Rightarrow> if os = MacOS
          then Display_scale sf # (if 3 / 2 < sf then [Adjusted_size] else []) else [] | _ \<Rightarrow> [])"
  "main_scripts (dpi_setup os mon s) = main_scripts s
     @ (case mon of Monitor sf \<Rightarrow> if os = MacOS then [Dpi_override] else [] | _ \<Rightarrow> [])"
  by (simp_all add: dpi_setup_def Let_def split: monitor_lookup.splits)

text \<open>
  C14. The scaling block acts on macOS only and only when a monitor is found: it then
  evaluates the scaling script in the main webview, and it resizes the main window to 1200 by
  800 exactly when the scale factor is above 1.5.
\<close>

theorem dpi_setup_effect:
  "main_size (dpi_setup os mon s)
     = (if os = MacOS \<and> (\<exists>sf. mon = Monitor sf \<and> 3 / 2 < sf) then Some (1200, 800) else main_size s)
   \<and> main_scripts (dpi_setup os mon s)
     = main_scripts s @ (if os = MacOS \<and> (\<exists>sf. mon = Monitor sf) then [Dpi_override] else [])"
  by (cases mon) (auto simp: dpi_setup_def Let_def)

end
