(* ===== verification/Router.thy ===== *)
theory Router
  imports Window
begin
text \<open>
  The event router: the task spawned at line 79 of \<^verbatim>\<open>main.rs\<close>, which receives the
  child's events one at a time and matches on them.  Its state is the window and console state
  of \<open>Window\<close> extended with a clock in milliseconds, which the 2-second
  \<^verbatim>\<open>task::sleep\<close> of line 109 advances.  This theory holds the body of the loop:
  \<open>handle_event\<close> (one arm of the \<^verbatim>\<open>match\<close>) with the stdout arm \<open>handle_stdout\<close>,
  their closed forms for one event, the contract of section 4.2 of the specification for one
  event, and the lemmas on one event.  The loop itself is in \<open>Router_Loop\<close>.
\<close>

record router_state = ui_state +
  clock :: nat

definition port_marker :: rstr where
  "port_marker = ''tauri-server-port=''"

definition ready_marker :: rstr where
  "ready_marker = ''tauri-client-ready''"

subsection \<open>The stdout arm\<close>

text \<open>Lines 85 to 87: split at \<^verbatim>\<open>=\<close>, take the second piece (which panics if there is none), trim it.\<close>

definition extract_port :: "rstr \<Rightarrow> rstr fallible" where
  "extract_port line =
     pbind (vec_index (str_split ''='' line) 1) (\<lambda>token. Inr (str_trim token))"

definition sleep_ms :: "nat \<Rightarrow> 'a router_state_scheme \<Rightarrow> 'a router_state_scheme" where
  "sleep_ms d s = s\<lparr>clock := clock s + d\<rparr>"

text \<open>
  Lines 109 to 132: sleep two seconds, on macOS evaluate the final scaling script, close the
  splash window, show the main window.
\<close>

definition reveal_main :: "target_os \<Rightarrow> 'a router_state_scheme \<Rightarrow> 'a router_state_scheme" where
  "reveal_main os s =
     (let s1 = sleep_ms 2000 s;
          s2 = (if os = MacOS then eval_main Final_dpi_override s1 else s1)
      in show_main (close_splash s2))"

text \<open>
  Lines 82 to 134.  The two tests are independent \<^verbatim>\<open>if\<close>s in this order, so one line
  carrying both markers first navigates and then reveals.
\<close>

definition handle_stdout :: "target_os \<Rightarrow> rstr \<Rightarrow> router_state \<Rightarrow> router_state fallible" where
  "handle_stdout os line s =
     (let s1 = print_line (Stdout_line line) s
      in pbind (if str_contains line port_marker
                then pbind (extract_port line) (\<lambda>port. Inr (eval_main (Navigation port) s1))
                else Inr s1)
           (\<lambda>s2. Inr (if str_contains line ready_marker then reveal_main os s2 else s2)))"

subsection \<open>The body of the loop\<close>

definition handle_event :: "target_os \<Rightarrow> router_state \<Rightarrow> command_event \<Rightarrow> router_state fallible" where
  "handle_event os s e =
     (case e of
        Stdout line \<Rightarrow> handle_stdout os line s
      | Stderr line \<Rightarrow> Inr (print_line (Stderr_line line) s)
      | Error err \<Rightarrow> Inr (print_line (Trame_error err) s)
      | Terminated p \<Rightarrow> Inr (print_line (Trame_exited p) s)
      | Other_event \<Rightarrow> Inr s)"

subsection \<open>Closed forms and the contract\<close>

text \<open>
  The router task starts with the windows that \<^verbatim>\<open>setup\<close> moved into it and an empty
  clock.
\<close>

definition router_init :: "ui_state \<Rightarrow> router_state" where
  "router_init u =
     \<lparr>splash_open = splash_open u, main_visible = main_visible u, main_scripts = main_scripts u,
      main_size = main_size u, console = console u, clock = 0\<rparr>"

text \<open>
  Since no arm of the loop can panic (see below), each arm is a total function of the state:
  \<open>stdout_effect\<close> and \<open>event_effect\<close>.  \<open>ready_event\<close> says whether an event is a
  stdout line carrying the readiness marker.
\<close>

definition stdout_effect :: "target_os \<Rightarrow> rstr \<Rightarrow> router_state \<Rightarrow> router_state" where
  "stdout_effect os line s =
     (let s1 = print_line (Stdout_line line) s;
          s2 = (if str_contains line port_marker
                then eval_main (Navigation (str_trim (str_split ''='' line ! 1))) s1 else s1)
      in if str_contains line ready_marker then reveal_main os s2 else s2)"

definition event_effect :: "target_os \<Rightarrow> router_state \<Rightarrow> command_event \<Rightarrow> router_state" where
  "event_effect os s e =
     (case e of
        Stdout line \<Rightarrow> stdout_effect os line s
      | _ \<Rightarrow> (case event_console e of None \<Rightarrow> s | Some l \<Rightarrow> print_line l s))"

definition ready_event :: "command_event \<Rightarrow> bool" where
  "ready_event e \<longleftrightarrow> (case e of Stdout line \<Rightarrow> str_contains line ready_marker | _ \<Rightarrow> False)"

text \<open>The scripts one event makes the task evaluate in the main webview, in order.\<close>

definition event_scripts :: "target_os \<Rightarrow> command_event \<Rightarrow> script list" where
  "event_scripts os e =
     (case e of
        Stdout line \<Rightarrow>
          (if str_contains line port_marker
           then [Navigation (str_trim (str_split ''='' line ! 1))] else [])
          @ (if str_contains line ready_marker \<and> os = MacOS then [Final_dpi_override] else [])
      | _ \<Rightarrow> [])"

text \<open>
  The contract of the event router as section 4.2 of the specification states it: on a line
  with the port marker, navigate to the websocket URL built from the trailing token after
  \<^verbatim>\<open>=\<close>; on a line with the readiness marker, show the main window.  Its state is
  whether the main window is shown and the list of URLs navigated to.
\<close>

record router_spec =
  spec_shown :: bool
  spec_urls :: "rstr list"

definition spec_port :: "rstr \<Rightarrow> rstr" where
  "spec_port line = str_trim (last (str_split ''='' line))"

definition spec_event :: "router_spec \<Rightarrow> command_event \<Rightarrow> router_spec" where
  "spec_event a e =
     (case e of
        Stdout line \<Rightarrow>
          (let a1 = (if str_contains line port_marker
                     then a\<lparr>spec_urls := spec_urls a @ [session_url (spec_port line)]\<rparr> else a)
           in if str_contains line ready_marker then a1\<lparr>spec_shown := True\<rparr> else a1)
      | _ \<Rightarrow> a)"

fun nav_urls :: "script list \<Rightarrow> rstr list" where
  "nav_urls [] = []"
| "nav_urls (Navigation p # scs) = session_url p # nav_urls scs"
| "nav_urls (_ # scs) = nav_urls scs"

definition abs_router :: "router_state \<Rightarrow> router_spec" where
  "abs_router s = \<lparr>spec_shown = main_visible s, spec_urls = nav_urls (main_scripts s)\<rparr>"

definition one_eq_line :: "command_event \<Rightarrow> bool" where
  "one_eq_line e \<longleftrightarrow> (case e of Stdout line \<Rightarrow> count_list line (CHR ''='') \<le> 1 | _ \<Rightarrow> True)"

subsection \<open>Lemmas\<close>

lemmas ui_defs = eval_main_def set_main_size_def close_splash_def show_main_def print_line_def

lemma clock_ui_ops [simp]:
  "clock (eval_main sc s) = clock s"
  "clock (set_main_size sz s) = clock s"
  "clock (close_splash s) = clock s"
  "clock (show_main s) = clock s"
  "clock (print_line l s) = clock s"
  by (simp_all add: ui_defs)

subsubsection \<open>Port extraction\<close>

lemma hd_str_split_char: "hd (str_split [c] b) = takeWhile (\<lambda>x. x \<noteq> c) b"
proof (cases "c \<in> set b")
  case True
  then obtain b1 b2 where "b = b1 @ c # b2" and "c \<notin> set b1" by (metis split_list_first)
  then show ?thesis by (simp add: str_split_char_first launcher_simps)
next
  case False
  then have "takeWhile (\<lambda>x. x \<noteq> c) b = b" by (induction b) auto
  with False show ?thesis by (simp add: str_split_char_none del: takeWhile_eq_all_conv)
qed

lemma port_marker_has_eq: "str_contains line port_marker \<Longrightarrow> CHR ''='' \<in> set line"
proof -
  have "sublist ''='' port_marker" by (simp add: port_marker_def launcher_simps)
  moreover assume "str_contains line port_marker"
  ultimately have "sublist ''='' line"
    by (auto simp: str_contains_iff_sublist intro: sublist_order.order_trans)
  then show ?thesis by (simp add: launcher_simps)
qed

lemma extract_port_Inr:
  "CHR ''='' \<in> set line \<Longrightarrow> extract_port line = Inr (str_trim (str_split ''='' line ! 1))"
  using str_split_two_pieces [of "''=''" line]
  by (simp add: extract_port_def vec_index_def sublist_singleton_iff)

lemma extract_port_segment:
  assumes "CHR ''='' \<notin> set a"
  shows "extract_port (a @ CHR ''='' # b) = Inr (str_trim (takeWhile (\<lambda>x. x \<noteq> CHR ''='') b))"
proof -
  have "str_split ''='' (a @ CHR ''='' # b) = a # str_split ''='' b"
    using assms by (simp add: str_split_char_first)
  moreover have "str_split ''='' b \<noteq> []"
    using str_split_char_count [of "CHR ''=''" b] by auto
  ultimately have "str_split ''='' (a @ CHR ''='' # b) ! 1 = hd (str_split [CHR ''=''] b)"
    by (simp add: hd_conv_nth)
  then show ?thesis by (simp add: extract_port_Inr hd_str_split_char)
qed

lemma extract_port_marker_line:
  assumes "CHR ''='' \<notin> set a" and "CHR ''='' \<notin> set p"
  shows "extract_port (a @ port_marker @ p) = Inr (str_trim p)"
proof -
  have line: "a @ port_marker @ p = (a @ ''tauri-server-port'') @ CHR ''='' # p"
    by (simp add: port_marker_def)
  have a: "CHR ''='' \<notin> set (a @ ''tauri-server-port'')" using assms(1) by simp
  have p: "takeWhile (\<lambda>x. x \<noteq> CHR ''='') p = p" using assms(2) by (induction p) auto
  show ?thesis unfolding line using extract_port_segment [OF a, of p] p by simp
qed

lemma split_second_is_last:
  assumes "count_list line (CHR ''='') \<le> 1" and "str_contains line port_marker"
  shows "str_split ''='' line ! Suc 0 = last (str_split ''='' line)"
proof -
  from assms(2) have "CHR ''='' \<in> set line" by (rule port_marker_has_eq)
  with assms(1) have "count_list line (CHR ''='') = 1"
    by (metis count_list_0_iff le_neq_implies_less less_one)
  then have len: "length (str_split ''='' line) = 2" by (simp add: str_split_char_count)
  then have ne: "str_split ''='' line \<noteq> []" by auto
  from len show ?thesis by (simp add: last_conv_nth [OF ne])
qed

text \<open>
  C9. The code does not take the trailing token after \<^verbatim>\<open>=\<close>, as the specification
  says, but the piece between the first and the second \<^verbatim>\<open>=\<close> of the line: on every
  port line with one earlier \<^verbatim>\<open>=\<close>, whatever the text around it, the router extracts
  the text before the marker (ending in \<^verbatim>\<open>tauri-server-port\<close>) instead of the port
  the server announced, which the specification's trailing token would give.
\<close>

theorem port_not_trailing_token:
  assumes "CHR ''='' \<notin> set a" and "CHR ''='' \<notin> set b" and "CHR ''='' \<notin> set p"
  shows "str_contains (a @ CHR ''='' # b @ port_marker @ p) port_marker
         \<and> extract_port (a @ CHR ''='' # b @ port_marker @ p)
             = Inr (str_trim (b @ ''tauri-server-port''))
         \<and> spec_port (a @ CHR ''='' # b @ port_marker @ p) = str_trim p"
proof -
  have tail: "b @ port_marker @ p = (b @ ''tauri-server-port'') @ CHR ''='' # p"
    by (simp add: port_marker_def)
  have bt: "CHR ''='' \<notin> set (b @ ''tauri-server-port'')" using assms(2) by simp
  have "sublist port_marker ((a @ CHR ''='' # b) @ port_marker @ p)" by (rule sublist_appendI)
  then have "str_contains (a @ CHR ''='' # b @ port_marker @ p) port_marker"
    by (simp add: str_contains_iff_sublist)
  moreover have "extract_port (a @ CHR ''='' # b @ port_marker @ p)
      = Inr (str_trim (b @ ''tauri-server-port''))"
  proof -
    have "takeWhile (\<lambda>x. x \<noteq> CHR ''='') (b @ port_marker @ p) = b @ ''tauri-server-port''"
      unfolding tail by (rule takeWhile_append_not_in [OF bt])
    with extract_port_segment [OF assms(1), of "b @ port_marker @ p"] show ?thesis by (simp only:)
  qed
  moreover have "str_split ''='' (a @ CHR ''='' # b @ port_marker @ p)
      = [a, b @ ''tauri-server-port'', p]"
  proof -
    have "str_split ''='' (a @ CHR ''='' # (b @ ''tauri-server-port'') @ CHR ''='' # p)
        = a # str_split ''='' ((b @ ''tauri-server-port'') @ CHR ''='' # p)"
      by (rule str_split_char_first [OF assms(1)])
    also have "\<dots> = a # (b @ ''tauri-server-port'') # str_split ''='' p"
      by (simp only: str_split_char_first [OF bt])
    also have "\<dots> = [a, b @ ''tauri-server-port'', p]"
      by (simp only: str_split_char_none [OF assms(3)])
    finally show ?thesis unfolding tail .
  qed
  then have "spec_port (a @ CHR ''='' # b @ port_marker @ p) = str_trim p"
    by (simp add: spec_port_def)
  ultimately show ?thesis by blast
qed

theorem port_not_trailing_token_witness:
  "CHR ''='' \<notin> set ''x'' \<and> CHR ''='' \<notin> set ''1 '' \<and> CHR ''='' \<notin> set ''8080''
   \<and> str_contains ''x=1 tauri-server-port=8080'' port_marker
   \<and> extract_port ''x=1 tauri-server-port=8080'' = Inr ''1 tauri-server-port''
   \<and> spec_port ''x=1 tauri-server-port=8080'' = ''8080''"
proof -
  have h: "CHR ''='' \<notin> set ''x''" "CHR ''='' \<notin> set ''1 ''" "CHR ''='' \<notin> set ''8080''"
    by simp_all
  show ?thesis
    using h port_not_trailing_token [OF h]
    by (simp add: port_marker_def str_trim_def rust_is_whitespace_def)
qed

subsubsection \<open>One event\<close>

lemma nav_urls_append [simp]: "nav_urls (xs @ ys) = nav_urls xs @ nav_urls ys"
  by (induction xs rule: nav_urls.induct) simp_all

lemma reveal_main_fields [simp]:
  "main_visible (reveal_main os s) = True"
  "splash_open (reveal_main os s) = False"
  "clock (reveal_main os s) = clock s + 2000"
  "console (reveal_main os s) = console s"
  "main_size (reveal_main os s) = main_size s"
  "main_scripts (reveal_main os s) =
     main_scripts s @ (if os = MacOS then [Final_dpi_override] else [])"
  by (simp_all add: reveal_main_def Let_def ui_defs sleep_ms_def)

lemma handle_stdout_eq: "handle_stdout os line s = Inr (stdout_effect os line s)"
  by (simp add: handle_stdout_def stdout_effect_def Let_def extract_port_Inr port_marker_has_eq)

lemma handle_event_eq: "handle_event os s e = Inr (event_effect os s e)"
  by (cases e) (simp_all add: handle_event_def event_effect_def handle_stdout_eq event_console_def)

lemma ready_event_iff:
  "ready_event e \<longleftrightarrow> (\<exists>line. e = Stdout line \<and> str_contains line ready_marker)"
  by (cases e) (simp_all add: ready_event_def)

lemma event_effect_fields [simp]:
  "main_visible (event_effect os s e) = (main_visible s \<or> ready_event e)"
  "splash_open (event_effect os s e) = (splash_open s \<and> \<not> ready_event e)"
  "clock (event_effect os s e) = clock s + (if ready_event e then 2000 else 0)"
  "main_size (event_effect os s e) = main_size s"
  by (cases e; simp add: event_effect_def stdout_effect_def ready_event_def event_console_def
        Let_def ui_defs split: option.splits)+

lemma event_effect_prefixes:
  "prefix (console s) (console (event_effect os s e))"
  "prefix (main_scripts s) (main_scripts (event_effect os s e))"
  by (cases e; simp add: event_effect_def stdout_effect_def event_console_def Let_def ui_defs
        split: option.splits)+

lemma event_effect_scripts:
  "main_scripts (event_effect os s e) = main_scripts s @ event_scripts os e"
  by (cases e) (simp_all add: event_effect_def stdout_effect_def event_scripts_def event_console_def
      Let_def split: option.splits)

lemma event_effect_console:
  "console (event_effect os s e) = console s @ (case event_console e of None \<Rightarrow> [] | Some l \<Rightarrow> [l])"
  by (cases e) (simp_all add: event_effect_def stdout_effect_def event_console_def Let_def)

lemma stdout_effect_port:
  assumes "CHR ''='' \<notin> set a" and "CHR ''='' \<notin> set p"
    and "\<not> str_contains (a @ port_marker @ p) ready_marker"
  shows "stdout_effect os (a @ port_marker @ p) s
         = eval_main (Navigation (str_trim p)) (print_line (Stdout_line (a @ port_marker @ p)) s)"
proof -
  have c: "str_contains (a @ port_marker @ p) port_marker" by (simp add: str_contains_iff_sublist)
  have "Inr (str_trim (str_split ''='' (a @ port_marker @ p) ! 1)) = (Inr (str_trim p) :: rstr fallible)"
    using extract_port_Inr [OF port_marker_has_eq [OF c]] extract_port_marker_line [OF assms(1,2)]
    by simp
  then have "str_trim (str_split ''='' (a @ port_marker @ p) ! 1) = str_trim p" by simp
  with c show ?thesis using assms(3) by (simp add: stdout_effect_def Let_def)
qed

text \<open>
  C23. Whenever the port extraction succeeds, the port it returns has the shape of a token:
  it contains no \<^verbatim>\<open>=\<close>, and it neither starts nor ends with whitespace.
\<close>

theorem extract_port_token:
  assumes "extract_port line = Inr p"
  shows "CHR ''='' \<notin> set p
         \<and> (p = [] \<or> \<not> rust_is_whitespace (hd p) \<and> \<not> rust_is_whitespace (last p))"
proof -
  have len: "1 < length (str_split ''='' line)" and p: "p = str_trim (str_split ''='' line ! 1)"
    using assms by (auto simp: extract_port_def vec_index_def split: if_splits)
  have "str_split ''='' line ! 1 \<in> set (str_split ''='' line)" using len by simp
  then have "CHR ''='' \<notin> set (str_split ''='' line ! 1)"
    using split_scan_pieces [of "''=''" "[]" line] by (simp add: str_split_def sublist_singleton_iff)
  then have "CHR ''='' \<notin> set p" using p set_str_trim by blast
  moreover have "p = [] \<or> \<not> rust_is_whitespace (hd p) \<and> \<not> rust_is_whitespace (last p)"
    using p str_trim_hd str_trim_last by blast
  ultimately show ?thesis by blast
qed

theorem extract_port_token_witness:
  "extract_port ''tauri-server-port= 8080 '' = Inr ''8080''
   \<and> CHR ''='' \<notin> set ''8080''
   \<and> (''8080'' = [] \<or> \<not> rust_is_whitespace (hd ''8080'') \<and> \<not> rust_is_whitespace (last ''8080''))"
proof -
  have e: "extract_port ''tauri-server-port= 8080 '' = Inr ''8080''"
    using extract_port_marker_line [of "[]" "'' 8080 ''"]
    by (simp add: port_marker_def str_trim_def rust_is_whitespace_def)
  show ?thesis using e extract_port_token [OF e] by simp
qed

text \<open>
  C3. A stdout line that carries the readiness marker makes the task sleep two seconds, close
  the splash window and show the main window; it cannot panic.
\<close>

theorem handle_event_ready:
  assumes "str_contains line ready_marker"
  shows "\<exists>s'. handle_event os s (Stdout line) = Inr s' \<and> main_visible s' \<and> \<not> splash_open s'
              \<and> clock s' = clock s + 2000"
  using assms by (simp add: handle_event_def handle_stdout_eq stdout_effect_def Let_def ui_defs)

theorem handle_event_ready_witness:
  "str_contains ''tauri-client-ready'' ready_marker
   \<and> (\<exists>s'. handle_event MacOS (router_init initial_ui) (Stdout ''tauri-client-ready'') = Inr s'
            \<and> main_visible s' \<and> \<not> splash_open s'
            \<and> clock s' = clock (router_init initial_ui) + 2000)"
proof -
  have h: "str_contains ''tauri-client-ready'' ready_marker" by (simp add: ready_marker_def)
  show ?thesis using h handle_event_ready [OF h, of MacOS "router_init initial_ui"] by blast
qed

text \<open>
  C4. A stdout line that announces the port (with no \<^verbatim>\<open>=\<close> before the marker nor in the
  port) is logged and makes the main webview navigate to \<^verbatim>\<open>ws://localhost:PORT/ws\<close>
  with the port trimmed; nothing else changes.
\<close>

theorem handle_event_port:
  assumes "CHR ''='' \<notin> set a" and "CHR ''='' \<notin> set p"
    and "\<not> str_contains (a @ port_marker @ p) ready_marker"
  shows "handle_event os s (Stdout (a @ port_marker @ p))
         = Inr (eval_main (Navigation (str_trim p)) (print_line (Stdout_line (a @ port_marker @ p)) s))"
  using stdout_effect_port [OF assms] by (simp add: handle_event_def handle_stdout_eq)

theorem handle_event_port_witness:
  "CHR ''='' \<notin> set ''launch '' \<and> CHR ''='' \<notin> set '' 8080''
   \<and> \<not> str_contains (''launch '' @ port_marker @ '' 8080'') ready_marker
   \<and> handle_event Linux_os (router_init initial_ui) (Stdout (''launch '' @ port_marker @ '' 8080''))
       = Inr (eval_main (Navigation (str_trim '' 8080''))
               (print_line (Stdout_line (''launch '' @ port_marker @ '' 8080'')) (router_init initial_ui)))"
proof -
  have h1: "CHR ''='' \<notin> set ''launch ''" and h2: "CHR ''='' \<notin> set '' 8080''" by simp_all
  have h3: "\<not> str_contains (''launch '' @ port_marker @ '' 8080'') ready_marker"
    by (simp add: ready_marker_def port_marker_def)
  show ?thesis using h1 h2 h3 handle_event_port [OF h1 h2 h3, of Linux_os "router_init initial_ui"]
    by blast
qed

text \<open>
  C8. Every other event (stderr, errors, termination, unknown variants, and stdout lines with
  neither marker) only prints its console line, if any.
\<close>

theorem handle_event_other:
  assumes "\<not> (\<exists>line. e = Stdout line
                  \<and> (str_contains line port_marker \<or> str_contains line ready_marker))"
  shows "handle_event os s e = Inr (case event_console e of None \<Rightarrow> s | Some l \<Rightarrow> print_line l s)"
  using assms
  by (cases e) (simp_all add: handle_event_def handle_stdout_eq stdout_effect_def event_console_def)

theorem handle_event_other_witness:
  "\<not> (\<exists>line. Stderr ''Traceback'' = Stdout line
          \<and> (str_contains line port_marker \<or> str_contains line ready_marker))
   \<and> handle_event Windows_os (router_init initial_ui) (Stderr ''Traceback'')
       = Inr (case event_console (Stderr ''Traceback'') of None \<Rightarrow> router_init initial_ui
              | Some l \<Rightarrow> print_line l (router_init initial_ui))"
proof -
  have h: "\<not> (\<exists>line. Stderr ''Traceback'' = Stdout line
          \<and> (str_contains line port_marker \<or> str_contains line ready_marker))" by simp
  show ?thesis using h handle_event_other [OF h, of Windows_os "router_init initial_ui"] by blast
qed

lemma abs_router_event_effect:
  "one_eq_line e \<Longrightarrow> abs_router (event_effect os s e) = spec_event (abs_router s) e"
  by (cases e) (auto simp: abs_router_def event_effect_def stdout_effect_def spec_event_def
      spec_port_def one_eq_line_def event_console_def Let_def ui_defs split_second_is_last
      split: option.splits)

end
