(* ===== verification/Router_Loop.thy ===== *)
theory Router_Loop
  imports Router
begin

text \<open>
  The loop of the event router, \<^verbatim>\<open>while let Some(event) = rx.recv().await\<close> (lines 80
  to 146 of \<^verbatim>\<open>main.rs\<close>), over the list of timed events the channel delivers before it
  closes: \<open>recv\<close> and \<open>event_loop\<close>, the closed form \<open>loop_effect\<close> (a fold), and the
  reachable states of the task (\<open>router_reachable\<close>, an inductive relation).  The lemmas
  show that the loop never panics, when and how late the main window is shown, the bounds
  on its clock and when each event is taken from the channel, which scripts
  and console lines it produces, that it refines the contract of the specification, and the
  invariant of its reachable states.
\<close>

subsection \<open>Definitions\<close>

text \<open>
  An event is received with its arrival time; \<^verbatim>\<open>recv().await\<close> returns at the arrival
  time or at once if the event arrived while the task was busy (sleeping).
\<close>

type_synonym timed_event = "nat \<times> command_event"

definition recv :: "nat \<Rightarrow> router_state \<Rightarrow> router_state" where
  "recv t s = s\<lparr>clock := max (clock s) t\<rparr>"

fun event_loop :: "target_os \<Rightarrow> router_state \<Rightarrow> timed_event list \<Rightarrow> router_state fallible" where
  "event_loop os s [] = Inr s"
| "event_loop os s ((t, e) # es) = pbind (handle_event os (recv t s) e) (\<lambda>s'. event_loop os s' es)"

definition loop_effect :: "target_os \<Rightarrow> router_state \<Rightarrow> timed_event list \<Rightarrow> router_state" where
  "loop_effect os s es = fold (\<lambda>(t, e) s. event_effect os (recv t s) e) es s"

text \<open>
  The states the task can reach from a start state \<open>s0\<close>: one receive and one arm at a
  time.  \<open>router_inv\<close> is what every reachable state keeps of the start state.
\<close>

inductive router_reachable :: "target_os \<Rightarrow> router_state \<Rightarrow> router_state \<Rightarrow> bool"
  for os :: target_os and s0 :: router_state where
  reach_start: "router_reachable os s0 s0"
| reach_step: "router_reachable os s0 s \<Longrightarrow> handle_event os (recv t s) e = Inr s'
                 \<Longrightarrow> router_reachable os s0 s'"

definition router_inv :: "router_state \<Rightarrow> router_state \<Rightarrow> bool" where
  "router_inv s0 s \<longleftrightarrow>
     (splash_open s \<longleftrightarrow> \<not> main_visible s) \<and> prefix (console s0) (console s)
     \<and> prefix (main_scripts s0) (main_scripts s) \<and> clock s0 \<le> clock s \<and> main_size s = main_size s0"

text \<open>
  The clock at which the task takes each event from the channel: the time \<^verbatim>\<open>recv().await\<close>
  returns it.
\<close>

fun handle_times :: "target_os \<Rightarrow> router_state \<Rightarrow> timed_event list \<Rightarrow> nat list" where
  "handle_times os s [] = []"
| "handle_times os s ((t, e) # es) = clock (recv t s) # handle_times os (event_effect os (recv t s) e) es"

text \<open>
  The latest of the start clock and the arrival times of a list of events, and the number of
  readiness lines among them.
\<close>

definition arrival_bound :: "router_state \<Rightarrow> timed_event list \<Rightarrow> nat" where
  "arrival_bound s es = Max (insert (clock s) (fst ` set es))"

definition ready_count :: "timed_event list \<Rightarrow> nat" where
  "ready_count es = length (filter (ready_event \<circ> snd) es)"

text \<open>
  What an event says to the router's window logic (the line of a stdout event), and the part of
  the task's state that is not the console.
\<close>

definition stdout_of :: "command_event \<Rightarrow> rstr option" where
  "stdout_of e = (case e of Stdout line \<Rightarrow> Some line | _ \<Rightarrow> None)"

definition window_view :: "router_state \<Rightarrow> bool \<times> bool \<times> script list \<times> (real \<times> real) option \<times> nat" where
  "window_view s = (splash_open s, main_visible s, main_scripts s, main_size s, clock s)"

subsection \<open>Lemmas\<close>

lemma recv_fields [simp]:
  "clock (recv t s) = max (clock s) t"
  "main_visible (recv t s) = main_visible s"
  "splash_open (recv t s) = splash_open s"
  "main_size (recv t s) = main_size s"
  "console (recv t s) = console s"
  "main_scripts (recv t s) = main_scripts s"
  by (simp_all add: recv_def)

lemma loop_effect_simps [simp]:
  "loop_effect os s [] = s"
  "loop_effect os s ((t, e) # es) = loop_effect os (event_effect os (recv t s) e) es"
  by (simp_all add: loop_effect_def)

lemma event_loop_eq: "event_loop os s es = Inr (loop_effect os s es)"
  by (induction es arbitrary: s) (auto simp: handle_event_eq)

text \<open>
  C1. The router task never panics, whatever the child prints: on a line with the port
  marker, the split at \<^verbatim>\<open>=\<close> always has a second piece, so \<^verbatim>\<open>tokens[1]\<close> is in range.
\<close>

theorem event_loop_never_panics: "\<exists>s'. event_loop os s es = Inr s'"
  by (simp add: event_loop_eq)

lemma loop_effect_visible:
  "main_visible (loop_effect os s es) \<longleftrightarrow> main_visible s \<or> (\<exists>te\<in>set es. ready_event (snd te))"
proof (induction es arbitrary: s)
  case Nil
  then show ?case by simp
next
  case (Cons te es)
  obtain t e where te: "te = (t, e)" by fastforce
  show ?case using Cons.IH [of "event_effect os (recv t s) e"] by (auto simp: te)
qed

lemma loop_effect_splash:
  "splash_open (loop_effect os s es) \<longleftrightarrow> splash_open s \<and> \<not> (\<exists>te\<in>set es. ready_event (snd te))"
proof (induction es arbitrary: s)
  case Nil
  then show ?case by simp
next
  case (Cons te es)
  obtain t e where te: "te = (t, e)" by fastforce
  show ?case using Cons.IH [of "event_effect os (recv t s) e"] by (auto simp: te)
qed

lemma loop_effect_scripts:
  "main_scripts (loop_effect os s es) = main_scripts s @ concat (map (event_scripts os \<circ> snd) es)"
proof (induction es arbitrary: s)
  case Nil
  then show ?case by simp
next
  case (Cons te es)
  obtain t e where te: "te = (t, e)" by fastforce
  show ?case using Cons.IH [of "event_effect os (recv t s) e"] by (simp add: te event_effect_scripts)
qed

lemma loop_effect_clock_mono: "clock s \<le> clock (loop_effect os s es)"
proof (induction es arbitrary: s)
  case Nil
  then show ?case by simp
next
  case (Cons te es)
  obtain t e where te: "te = (t, e)" by fastforce
  have "clock s \<le> clock (event_effect os (recv t s) e)" by simp
  also have "\<dots> \<le> clock (loop_effect os (event_effect os (recv t s) e) es)" by (rule Cons.IH)
  finally show ?case by (simp add: te)
qed

lemma clock_step_arith:
  fixes A B c x t d r k :: nat
  assumes "A \<le> B" "B \<le> A + d" "B \<le> c" "max x t + d + 2000 * r \<le> c" "c \<le> B + 2000 * r"
    and "d = 2000 * k"
  shows "A \<le> c \<and> x + 2000 * (r + k) \<le> c \<and> c \<le> A + 2000 * (r + k)"
  using assms by (auto simp: max_def algebra_simps split: if_splits)

lemma loop_effect_clock_bounds:
  "arrival_bound s es \<le> clock (loop_effect os s es)
   \<and> clock s + 2000 * ready_count es \<le> clock (loop_effect os s es)
   \<and> clock (loop_effect os s es) \<le> arrival_bound s es + 2000 * ready_count es"
proof (induction es arbitrary: s)
  case Nil
  then show ?case by (simp add: arrival_bound_def ready_count_def)
next
  case (Cons te es)
  obtain t e where te: "te = (t, e)" by fastforce
  let ?s1 = "event_effect os (recv t s) e"
  let ?d = "if ready_event e then 2000 else 0 :: nat"
  let ?T = "fst ` set es"
  have c1: "clock ?s1 = max (clock s) t + ?d" by simp
  have rc: "ready_count (te # es) = ready_count es + (if ready_event e then 1 else 0)"
    by (simp add: ready_count_def te)
  have ab: "arrival_bound s (te # es) = Max (insert (clock s) (insert t ?T))"
    by (simp add: arrival_bound_def te)
  have fin: "finite ?T" by simp
  from Cons.IH [of ?s1] have
    ih1: "Max (insert (clock ?s1) ?T) \<le> clock (loop_effect os ?s1 es)" and
    ih2: "clock ?s1 + 2000 * ready_count es \<le> clock (loop_effect os ?s1 es)" and
    ih3: "clock (loop_effect os ?s1 es) \<le> Max (insert (clock ?s1) ?T) + 2000 * ready_count es"
    by (simp_all add: arrival_bound_def)
  have l1: "Max (insert (clock s) (insert t ?T)) \<le> Max (insert (clock ?s1) ?T)"
  proof -
    have "clock s \<le> clock ?s1" and "t \<le> clock ?s1" by simp_all
    then have "clock s \<le> Max (insert (clock ?s1) ?T)" and "t \<le> Max (insert (clock ?s1) ?T)"
      by (blast intro: le_Max_insert [OF fin])+
    moreover have "\<forall>y\<in>?T. y \<le> Max (insert (clock ?s1) ?T)" using fin by simp
    ultimately show ?thesis using fin by (simp del: event_effect_fields recv_fields)
  qed
  have u1: "Max (insert (clock ?s1) ?T) \<le> Max (insert (clock s) (insert t ?T)) + ?d"
  proof -
    have "clock s \<le> Max (insert (clock s) (insert t ?T))" and "t \<le> Max (insert (clock s) (insert t ?T))"
      using fin by (intro Max_ge; simp)+
    then have "max (clock s) t \<le> Max (insert (clock s) (insert t ?T))" by simp
    moreover have "\<forall>y\<in>?T. y \<le> Max (insert (clock s) (insert t ?T))"
      using fin by (blast intro: Max_ge)
    ultimately show ?thesis using fin c1 by auto
  qed
  let ?k = "if ready_event e then 1 else 0 :: nat"
  have rc': "ready_count (te # es) = ready_count es + ?k" using rc by simp
  have dk: "?d = 2000 * ?k" by simp
  have u1': "Max (insert (clock ?s1) ?T) \<le> arrival_bound s (te # es) + 2000 * ?k"
    using u1 by (simp only: ab dk)
  have ih2': "max (clock s) t + 2000 * ?k + 2000 * ready_count es \<le> clock (loop_effect os ?s1 es)"
    using ih2 by (simp only: c1 dk)
  have "arrival_bound s (te # es) \<le> clock (loop_effect os ?s1 es)
        \<and> clock s + 2000 * (ready_count es + ?k) \<le> clock (loop_effect os ?s1 es)
        \<and> clock (loop_effect os ?s1 es) \<le> arrival_bound s (te # es) + 2000 * (ready_count es + ?k)"
    by (rule clock_step_arith [OF l1 [folded ab] u1' ih1 ih2' ih3]) simp
  moreover have "loop_effect os s (te # es) = loop_effect os ?s1 es" by (simp add: te)
  ultimately show ?case by (simp only: rc')
qed

text \<open>
  C26. Bounds on the task's clock: when the channel closes, the task has handled every event
  no earlier than it arrived, and each readiness line has cost exactly its two-second sleep, so
  the clock lies between the latest arrival (and the start clock plus two seconds per readiness
  line) and the latest arrival plus two seconds per readiness line.
\<close>

theorem event_loop_clock_bounds:
  "\<exists>s'. event_loop os s es = Inr s'
        \<and> arrival_bound s es \<le> clock s'
        \<and> clock s + 2000 * ready_count es \<le> clock s'
        \<and> clock s' \<le> arrival_bound s es + 2000 * ready_count es"
  using loop_effect_clock_bounds [of s es os] by (simp add: event_loop_eq)

lemma length_handle_times [simp]: "length (handle_times os s es) = length es"
  by (induction os s es rule: handle_times.induct) auto

lemma handle_times_append:
  "handle_times os s (pre @ rest) = handle_times os s pre @ handle_times os (loop_effect os s pre) rest"
  by (induction os s pre rule: handle_times.induct) auto

text \<open>
  C27. The readiness sleep blocks the consumer: an event that arrives while the task sleeps
  after a readiness line is taken from the channel exactly when the two seconds are over, not
  when it arrives.  A port line that comes during the sleep thus navigates only after the main
  window has been shown.
\<close>

theorem sleep_delays_next_event:
  assumes "ready_event e" and "t' < t + 2000"
  shows "handle_times os s (pre @ (t, e) # (t', e') # post) ! Suc (length pre)
           = handle_times os s (pre @ (t, e) # (t', e') # post) ! length pre + 2000"
  using assms by (simp add: handle_times_append nth_append)

theorem sleep_delays_next_event_witness:
  "ready_event (Stdout ready_marker) \<and> (500::nat) < 100 + 2000
   \<and> handle_times Linux_os (router_init initial_ui)
        [(100, Stdout ready_marker), (500, Stdout ''tauri-server-port=8080'')] = [100, 2100]"
proof -
  have r: "ready_event (Stdout ready_marker)" by (simp add: ready_event_def str_contains_iff_sublist)
  have "(500::nat) < 100 + 2000" by simp
  from sleep_delays_next_event [OF r this, of Linux_os "router_init initial_ui" "[]"
      "Stdout ''tauri-server-port=8080''" "[]"] r
  show ?thesis by (simp add: router_init_def initial_ui_def)
qed

text \<open>
  C2. When the channel closes, the main window is shown exactly when it was shown before or
  some stdout line carried the readiness marker; without the marker it never appears.
\<close>

theorem event_loop_reveals_iff:
  "\<exists>s'. event_loop os s es = Inr s'
        \<and> (main_visible s' \<longleftrightarrow> main_visible s
              \<or> (\<exists>t line. (t, Stdout line) \<in> set es \<and> str_contains line ready_marker))"
proof -
  have "(\<exists>te\<in>set es. ready_event (snd te))
        \<longleftrightarrow> (\<exists>t line. (t, Stdout line) \<in> set es \<and> str_contains line ready_marker)"
    by (force simp: ready_event_iff)
  then show ?thesis by (simp add: event_loop_eq loop_effect_visible)
qed

text \<open>
  C7. The main window is never shown earlier than two seconds after a readiness line arrived:
  if a run from a hidden main window ends with it shown, some readiness line arrived at a
  time \<open>t\<close> with \<open>t + 2000\<close> at most the final clock.
\<close>

theorem event_loop_reveal_delay:
  assumes "event_loop os s es = Inr s'" and "\<not> main_visible s" and "main_visible s'"
  shows "\<exists>t line. (t, Stdout line) \<in> set es \<and> str_contains line ready_marker \<and> t + 2000 \<le> clock s'"
  using assms
proof (induction es arbitrary: s)
  case Nil
  then show ?case by simp
next
  case (Cons te es)
  obtain t e where te: "te = (t, e)" by fastforce
  let ?s1 = "event_effect os (recv t s) e"
  have run: "event_loop os ?s1 es = Inr s'" using Cons.prems(1) by (simp add: te event_loop_eq)
  show ?case
  proof (cases "ready_event e")
    case True
    then obtain line where e: "e = Stdout line" and r: "str_contains line ready_marker"
      by (auto simp: ready_event_iff)
    from run have s': "s' = loop_effect os ?s1 es" by (simp add: event_loop_eq)
    have "t + 2000 \<le> clock ?s1" using True by simp
    also have "\<dots> \<le> clock s'" unfolding s' by (rule loop_effect_clock_mono)
    finally show ?thesis using e r te by auto
  next
    case False
    with Cons.prems(2) have "\<not> main_visible ?s1" by simp
    from Cons.IH [OF run this Cons.prems(3)] show ?thesis by auto
  qed
qed

theorem event_loop_reveal_delay_witness:
  "event_loop MacOS (router_init initial_ui) [(0, Stdout ''tauri-server-port=8080''), (10, Stdout ''tauri-client-ready'')]
     = Inr (loop_effect MacOS (router_init initial_ui) [(0, Stdout ''tauri-server-port=8080''), (10, Stdout ''tauri-client-ready'')])
   \<and> \<not> main_visible (router_init initial_ui)
   \<and> main_visible (loop_effect MacOS (router_init initial_ui) [(0, Stdout ''tauri-server-port=8080''), (10, Stdout ''tauri-client-ready'')])
   \<and> (\<exists>t line. (t, Stdout line) \<in> set [(0, Stdout ''tauri-server-port=8080''), (10, Stdout ''tauri-client-ready'')]
        \<and> str_contains line ready_marker
        \<and> t + 2000 \<le> clock (loop_effect MacOS (router_init initial_ui) [(0, Stdout ''tauri-server-port=8080''), (10, Stdout ''tauri-client-ready'')]))"
proof -
  let ?es = "[(0, Stdout ''tauri-server-port=8080''), (10, Stdout ''tauri-client-ready'')]"
  let ?s' = "loop_effect MacOS (router_init initial_ui) ?es"
  have h1: "event_loop MacOS (router_init initial_ui) ?es = Inr ?s'" by (rule event_loop_eq)
  have h2: "\<not> main_visible (router_init initial_ui)" by (simp add: router_init_def initial_ui_def)
  have h3: "main_visible ?s'" by (simp add: ready_event_def ready_marker_def)
  show ?thesis using h1 h2 h3 event_loop_reveal_delay [OF h1 h2 h3] by blast
qed

lemma loop_effect_port_then_ready:
  assumes "CHR ''='' \<notin> set p" and "\<not> str_contains (port_marker @ p) ready_marker"
  shows "loop_effect os s [(t1, Stdout (port_marker @ p)), (t2, Stdout ready_marker)]
         = (let s1 = eval_main (Navigation (str_trim p))
                       (print_line (Stdout_line (port_marker @ p)) (recv t1 s))
            in reveal_main os (print_line (Stdout_line ready_marker) (recv t2 s1)))"
proof -
  let ?s1 = "eval_main (Navigation (str_trim p)) (print_line (Stdout_line (port_marker @ p)) (recv t1 s))"
  have e1: "event_effect os (recv t1 s) (Stdout (port_marker @ p)) = ?s1"
    using stdout_effect_port [of "[]" p] assms by (simp add: event_effect_def)
  have "\<not> str_contains ready_marker port_marker"
    by (simp add: ready_marker_def port_marker_def)
  moreover have "str_contains ready_marker ready_marker"
    by (simp add: str_contains_iff_sublist)
  ultimately have e2: "event_effect os (recv t2 ?s1) (Stdout ready_marker)
      = reveal_main os (print_line (Stdout_line ready_marker) (recv t2 ?s1))"
    by (simp add: event_effect_def stdout_effect_def Let_def)
  show ?thesis by (simp add: e1 e2 Let_def)
qed

text \<open>
  C10. A port line followed by a readiness line: the navigation script is evaluated before the
  final scaling script (macOS), and then the main window is shown and the splash closed.
\<close>

theorem navigation_then_reveal:
  assumes "CHR ''='' \<notin> set p" and "\<not> str_contains (port_marker @ p) ready_marker"
  shows "\<exists>s'. event_loop os s [(t1, Stdout (port_marker @ p)), (t2, Stdout ready_marker)] = Inr s'
              \<and> main_scripts s' = main_scripts s @ Navigation (str_trim p)
                                  # (if os = MacOS then [Final_dpi_override] else [])
              \<and> main_visible s' \<and> \<not> splash_open s'"
  by (simp add: event_loop_eq loop_effect_port_then_ready [OF assms] Let_def del: loop_effect_simps)

theorem navigation_then_reveal_witness:
  "CHR ''='' \<notin> set ''8080'' \<and> \<not> str_contains (port_marker @ ''8080'') ready_marker
   \<and> (\<exists>s'. event_loop MacOS (router_init initial_ui)
              [(0, Stdout (port_marker @ ''8080'')), (10, Stdout ready_marker)] = Inr s'
         \<and> main_scripts s' = main_scripts (router_init initial_ui) @ Navigation (str_trim ''8080'')
                             # (if MacOS = MacOS then [Final_dpi_override] else [])
         \<and> main_visible s' \<and> \<not> splash_open s')"
proof -
  have h1: "CHR ''='' \<notin> set ''8080''" by simp
  have h2: "\<not> str_contains (port_marker @ ''8080'') ready_marker"
    by (simp add: ready_marker_def port_marker_def)
  show ?thesis using h1 h2 navigation_then_reveal [OF h1 h2, of MacOS "router_init initial_ui" 0 10]
    by blast
qed

text \<open>
  C11. Nothing ties the readiness line to a preceding port line: a readiness line alone shows
  the main window without any navigation, on whatever page the main window was created with.
\<close>

theorem reveal_without_navigation:
  "\<exists>s'. event_loop os s [(t, Stdout ready_marker)] = Inr s'
        \<and> main_visible s' \<and> nav_urls (main_scripts s') = nav_urls (main_scripts s)"
proof -
  have "\<not> str_contains ready_marker port_marker"
    by (simp add: ready_marker_def port_marker_def)
  moreover have "str_contains ready_marker ready_marker"
    by (simp add: str_contains_iff_sublist)
  moreover have "nav_urls (main_scripts s @ (if os = MacOS then [Final_dpi_override] else []))
                 = nav_urls (main_scripts s)"
    by simp
  ultimately show ?thesis
    by (simp add: event_loop_eq event_effect_def stdout_effect_def Let_def ui_defs)
qed

lemma loop_effect_console:
  "console (loop_effect os s es) = console s @ List.map_filter event_console (map snd es)"
proof (induction es arbitrary: s)
  case Nil
  then show ?case by (simp add: map_filter_simps)
next
  case (Cons te es)
  obtain t e where te: "te = (t, e)" by fastforce
  show ?case using Cons.IH [of "event_effect os (recv t s) e"]
    by (simp add: te event_effect_console map_filter_simps split: option.splits)
qed

text \<open>
  C19. The task prints one console line per event, in the order the events arrive: the
  console at the end is the console at the start followed by the line of every event that has
  one (all but the unknown variants).
\<close>

theorem event_loop_console:
  "\<exists>s'. event_loop os s es = Inr s'
        \<and> console s' = console s @ List.map_filter event_console (map snd es)"
  by (simp add: event_loop_eq loop_effect_console)

subsubsection \<open>Events other than stdout lines\<close>

lemma ready_event_stdout_of: "stdout_of e = stdout_of e' \<Longrightarrow> ready_event e = ready_event e'"
  by (cases e; cases e') (simp_all add: stdout_of_def ready_event_def)

lemma event_scripts_stdout_of: "stdout_of e = stdout_of e' \<Longrightarrow> event_scripts os e = event_scripts os e'"
  by (cases e; cases e') (simp_all add: stdout_of_def event_scripts_def)

lemma window_view_event_effect:
  assumes "window_view s = window_view s'" and "stdout_of e = stdout_of e'"
  shows "window_view (event_effect os s e) = window_view (event_effect os s' e')"
  using assms ready_event_stdout_of [OF assms(2)] event_scripts_stdout_of [OF assms(2), of os]
  by (simp add: window_view_def event_effect_scripts)

lemma window_view_recv: "window_view s = window_view s' \<Longrightarrow> window_view (recv t s) = window_view (recv t s')"
  by (simp add: window_view_def)

text \<open>
  C25. Only the child's stdout lines steer the launcher: two runs whose events arrive at the
  same times and agree on every stdout line, whatever the stderr lines, errors and exit status
  are, end with the same windows, the same scripts evaluated and the same clock; those events are
  only logged.
\<close>

theorem event_loop_only_stdout_matters:
  assumes "list_all2 (\<lambda>(t, e) (t', e'). t = t' \<and> stdout_of e = stdout_of e') es es'"
  shows "\<exists>a b. event_loop os s es = Inr a \<and> event_loop os s es' = Inr b \<and> window_view a = window_view b"
proof -
  have "window_view s = window_view s' \<Longrightarrow>
        window_view (loop_effect os s es) = window_view (loop_effect os s' es')" for s'
    using assms
  proof (induction es arbitrary: es' s s')
    case Nil
    then show ?case by simp
  next
    case (Cons te es)
    then obtain te' es'' where es': "es' = te' # es''" by (cases es') auto
    obtain t e where te: "te = (t, e)" by fastforce
    obtain t' e' where te': "te' = (t', e')" by fastforce
    from Cons.prems have tt: "t = t'" "stdout_of e = stdout_of e'" and rest: "list_all2 (\<lambda>(t, e) (t', e'). t = t' \<and> stdout_of e = stdout_of e') es es''"
      by (simp_all add: es' te te')
    have "window_view (event_effect os (recv t s) e) = window_view (event_effect os (recv t' s') e')"
      using window_view_event_effect [OF window_view_recv [OF Cons.prems(1)] tt(2)] tt(1) by simp
    from Cons.IH [OF this rest] show ?case by (simp add: es' te te')
  qed
  then show ?thesis by (simp add: event_loop_eq)
qed

theorem event_loop_only_stdout_matters_witness:
  "list_all2 (\<lambda>(t, e) (t', e'). t = t' \<and> stdout_of e = stdout_of e')
     [(0::nat, Stderr ''Traceback''), (10, Stdout ready_marker)]
     [(0, Terminated \<lparr>code = Some 1, signal = None\<rparr>), (10, Stdout ready_marker)]
   \<and> (\<exists>a b. event_loop Linux_os (router_init initial_ui)
                [(0, Stderr ''Traceback''), (10, Stdout ready_marker)] = Inr a
             \<and> event_loop Linux_os (router_init initial_ui)
                [(0, Terminated \<lparr>code = Some 1, signal = None\<rparr>), (10, Stdout ready_marker)] = Inr b
             \<and> window_view a = window_view b)"
proof -
  have h: "list_all2 (\<lambda>(t, e) (t', e'). t = t' \<and> stdout_of e = stdout_of e')
     [(0::nat, Stderr ''Traceback''), (10, Stdout ready_marker)]
     [(0, Terminated \<lparr>code = Some 1, signal = None\<rparr>), (10, Stdout ready_marker)]"
    by (simp add: stdout_of_def)
  show ?thesis using h event_loop_only_stdout_matters [OF h, of Linux_os "router_init initial_ui"]
    by blast
qed

subsubsection \<open>Refinement of the router contract\<close>

lemma abs_router_recv [simp]: "abs_router (recv t s) = abs_router s"
  by (simp add: abs_router_def)

text \<open>
  C6. On stdout lines with at most one \<^verbatim>\<open>=\<close>, the router implements the contract of
  the specification: the abstraction of the loop's final state (main window shown, URLs
  navigated to) is the contract run on the same events.
\<close>

theorem event_loop_refines_spec:
  assumes "\<forall>te\<in>set es. one_eq_line (snd te)"
  shows "map_sum id abs_router (event_loop os s es)
         = Inr (fold (\<lambda>(t, e) a. spec_event a e) es (abs_router s))"
  using assms
proof (induction es arbitrary: s)
  case Nil
  then show ?case by (simp add: event_loop_eq)
next
  case (Cons te es)
  obtain t e where te: "te = (t, e)" by fastforce
  with Cons.prems have e: "one_eq_line e" and es: "\<forall>te\<in>set es. one_eq_line (snd te)" by auto
  have "abs_router (event_effect os (recv t s) e) = spec_event (abs_router s) e"
    using abs_router_event_effect [OF e] by simp
  with Cons.IH [OF es, of "event_effect os (recv t s) e"] show ?case
    by (simp add: te event_loop_eq)
qed

theorem event_loop_refines_spec_witness:
  "one_eq_line (Stdout ''tauri-server-port=8080'') \<and> one_eq_line (Stdout ''tauri-client-ready'')
   \<and> map_sum id abs_router (event_loop Linux_os (router_init initial_ui)
        [(0, Stdout ''tauri-server-port=8080''), (10, Stdout ''tauri-client-ready'')])
     = Inr (fold (\<lambda>(t, e) a. spec_event a e)
              [(0::nat, Stdout ''tauri-server-port=8080''), (10, Stdout ''tauri-client-ready'')]
              (abs_router (router_init initial_ui)))"
proof -
  have h: "\<forall>te\<in>set [(0::nat, Stdout ''tauri-server-port=8080''), (10, Stdout ''tauri-client-ready'')].
      one_eq_line (snd te)" by (simp add: one_eq_line_def)
  have "one_eq_line (Stdout ''tauri-server-port=8080'') \<and> one_eq_line (Stdout ''tauri-client-ready'')"
    by (simp add: one_eq_line_def)
  with event_loop_refines_spec [OF h, of Linux_os "router_init initial_ui"] show ?thesis by blast
qed

subsubsection \<open>Reachable states\<close>

lemma router_inv_step:
  "router_inv s0 s \<Longrightarrow> router_inv s0 (event_effect os (recv t s) e)"
  unfolding router_inv_def
  using event_effect_prefixes [of "recv t s" os e]
  by (auto intro: prefix_order.order_trans)

text \<open>
  C5. In every state the task reaches from a start state where exactly one of the two windows
  is shown, still exactly one is shown (the splash window is open iff the main window is
  hidden), the console and the scripts of the main webview have only grown, the clock has not
  gone back, and the window size is untouched.
\<close>

theorem router_reachable_inv:
  assumes "router_reachable os s0 s" and "splash_open s0 \<longleftrightarrow> \<not> main_visible s0"
  shows "router_inv s0 s"
  using assms
proof (induction rule: router_reachable.induct)
  case reach_start
  then show ?case by (simp add: router_inv_def)
next
  case (reach_step s t e s')
  then have "s' = event_effect os (recv t s) e" by (simp add: handle_event_eq)
  with reach_step show ?case by (simp add: router_inv_step)
qed

theorem router_reachable_inv_witness:
  "router_reachable MacOS (router_init initial_ui)
     (event_effect MacOS (recv 7 (router_init initial_ui)) (Stdout ''tauri-client-ready''))
   \<and> (splash_open (router_init initial_ui) \<longleftrightarrow> \<not> main_visible (router_init initial_ui))
   \<and> router_inv (router_init initial_ui)
       (event_effect MacOS (recv 7 (router_init initial_ui)) (Stdout ''tauri-client-ready''))"
proof -
  let ?s0 = "router_init initial_ui"
  have h1: "router_reachable MacOS ?s0 (event_effect MacOS (recv 7 ?s0) (Stdout ''tauri-client-ready''))"
    by (rule reach_step [OF reach_start]) (rule handle_event_eq)
  have h2: "splash_open ?s0 \<longleftrightarrow> \<not> main_visible ?s0" by (simp add: router_init_def initial_ui_def)
  show ?thesis using h1 h2 router_reachable_inv [OF h1 h2] by blast
qed

lemma event_loop_reachable:
  "router_reachable os s0 s \<Longrightarrow> event_loop os s es = Inr s' \<Longrightarrow> router_reachable os s0 s'"
proof (induction es arbitrary: s)
  case Nil
  then show ?case by simp
next
  case (Cons te es)
  obtain t e where te: "te = (t, e)" by fastforce
  have "router_reachable os s0 (event_effect os (recv t s) e)"
    using Cons.prems(1) by (rule reach_step) (simp add: handle_event_eq)
  with Cons.IH Cons.prems(2) show ?case by (simp add: te event_loop_eq)
qed


end
