(* ===== verification/Setup.thy ===== *)
theory Setup
  imports Router_Loop
begin

text \<open>
  The \<^verbatim>\<open>setup\<close> closure of \<^verbatim>\<open>main\<close> (lines 14 to 148 of \<^verbatim>\<open>main.rs\<close>) and the
  application run it starts.  \<open>app_setup\<close> looks the two windows up and unwraps them (a missing
  window is a panic), runs the macOS scaling block, builds and spawns the sidecar (each
  failure a panic with the code's \<^verbatim>\<open>expect\<close> message), and hands the windows to the router
  task.  What the installation decides (the windows the configuration declares, the platform,
  the monitor, whether the sidecar binary is found and can be spawned) is the record
  \<open>app_config\<close>; \<open>run_app\<close> is \<open>app_setup\<close> followed by the router loop over the events the
  child delivers.
\<close>

record app_config =
  cfg_windows :: "rstr list"
  cfg_os :: target_os
  cfg_monitor :: monitor_lookup
  cfg_sidecar_found :: bool
  cfg_spawn_ok :: bool

text \<open>\<^verbatim>\<open>app.get_window(label)\<close>: the handle of a configured window, here its label.\<close>

definition get_window :: "app_config \<Rightarrow> rstr \<Rightarrow> rstr option" where
  "get_window cfg label = (if label \<in> set (cfg_windows cfg) then Some label else None)"

definition option_unwrap :: "'a option \<Rightarrow> 'a fallible" where
  "option_unwrap v = (case v of None \<Rightarrow> Inl Unwrap_none | Some a \<Rightarrow> Inr a)"

definition app_setup :: "app_config \<Rightarrow> (ui_state \<times> command) fallible" where
  "app_setup cfg =
     pbind (option_unwrap (get_window cfg ''splashscreen'')) (\<lambda>_.
     pbind (option_unwrap (get_window cfg ''main'')) (\<lambda>_.
       (let u = dpi_setup (cfg_os cfg) (cfg_monitor cfg) initial_ui
        in pbind (launch_sidecar (cfg_sidecar_found cfg) (cfg_spawn_ok cfg)) (\<lambda>c. Inr (u, c)))))"

definition run_app :: "app_config \<Rightarrow> timed_event list \<Rightarrow> router_state fallible" where
  "run_app cfg es =
     pbind (app_setup cfg) (\<lambda>(u, c). event_loop (cfg_os cfg) (router_init u) es)"

text \<open>
  Lines 148 to 151: the \<^verbatim>\<open>setup\<close> closure ends in \<^verbatim>\<open>Ok(())\<close> on every path that does not
  panic, and \<^verbatim>\<open>Builder::run\<close> fails, which \<^verbatim>\<open>expect\<close> turns into a panic, only when
  Tauri cannot build the application (its runtime or the configured windows), before
  \<^verbatim>\<open>setup\<close> runs.  The first argument says whether that build succeeds.
\<close>

definition main_run :: "bool \<Rightarrow> app_config \<Rightarrow> timed_event list \<Rightarrow> router_state fallible" where
  "main_run build_ok cfg es =
     (if build_ok then run_app cfg es else Inl (Expect_failed ''error while running application''))"

definition well_installed :: "app_config \<Rightarrow> bool" where
  "well_installed cfg \<longleftrightarrow>
     ''splashscreen'' \<in> set (cfg_windows cfg) \<and> ''main'' \<in> set (cfg_windows cfg)
     \<and> cfg_sidecar_found cfg \<and> cfg_spawn_ok cfg"

subsection \<open>Lemmas\<close>

lemma app_setup_eq:
  "app_setup cfg =
     (if ''splashscreen'' \<notin> set (cfg_windows cfg) \<or> ''main'' \<notin> set (cfg_windows cfg) then Inl Unwrap_none
      else pbind (launch_sidecar (cfg_sidecar_found cfg) (cfg_spawn_ok cfg))
             (\<lambda>c. Inr (dpi_setup (cfg_os cfg) (cfg_monitor cfg) initial_ui, c)))"
  by (simp add: app_setup_def get_window_def option_unwrap_def)

lemma app_setup_Inr_iff: "(\<exists>r. app_setup cfg = Inr r) \<longleftrightarrow> well_installed cfg"
  by (auto simp: app_setup_eq launch_sidecar_eq well_installed_def)

lemma app_setup_start_state:
  "app_setup cfg = Inr (u, c) \<Longrightarrow> splash_open u \<and> \<not> main_visible u \<and> nav_urls (main_scripts u) = []"
  by (auto simp: app_setup_eq launch_sidecar_eq initial_ui_def dpi_setup_def Let_def
      split: if_splits monitor_lookup.splits)

lemma run_app_eq:
  "run_app cfg es = pbind (app_setup cfg) (\<lambda>(u, c). Inr (loop_effect (cfg_os cfg) (router_init u) es))"
  by (simp add: run_app_def event_loop_eq)

text \<open>
  C12. \<^verbatim>\<open>setup\<close> panics in exactly three ways: with the \<^verbatim>\<open>unwrap\<close> panic when
  either window is not configured, with \<^verbatim>\<open>failed to create sidecar\<close> when the sidecar
  binary is not found, and with \<^verbatim>\<open>Failed to spawn server\<close> when it cannot be spawned;
  the checks happen in this order.
\<close>

theorem app_setup_panics:
  "app_setup cfg = Inl p \<longleftrightarrow>
     ((''splashscreen'' \<notin> set (cfg_windows cfg) \<or> ''main'' \<notin> set (cfg_windows cfg)) \<and> p = Unwrap_none)
     \<or> (''splashscreen'' \<in> set (cfg_windows cfg) \<and> ''main'' \<in> set (cfg_windows cfg)
        \<and> \<not> cfg_sidecar_found cfg \<and> p = Expect_failed ''failed to create sidecar'')
     \<or> (''splashscreen'' \<in> set (cfg_windows cfg) \<and> ''main'' \<in> set (cfg_windows cfg)
        \<and> cfg_sidecar_found cfg \<and> \<not> cfg_spawn_ok cfg \<and> p = Expect_failed ''Failed to spawn server'')"
  by (auto simp: app_setup_eq launch_sidecar_eq)

theorem app_setup_panics_witness:
  "app_setup \<lparr>cfg_windows = [''splashscreen''], cfg_os = Linux_os,
               cfg_monitor = No_monitor, cfg_sidecar_found = True, cfg_spawn_ok = True\<rparr>
     = Inl Unwrap_none
   \<and> app_setup \<lparr>cfg_windows = [''main'', ''splashscreen''], cfg_os = Windows_os,
               cfg_monitor = No_monitor, cfg_sidecar_found = True, cfg_spawn_ok = False\<rparr>
     = Inl (Expect_failed ''Failed to spawn server'')"
  using app_setup_panics [of "\<lparr>cfg_windows = [''splashscreen''], cfg_os = Linux_os,
               cfg_monitor = No_monitor, cfg_sidecar_found = True, cfg_spawn_ok = True\<rparr>"
      Unwrap_none]
    app_setup_panics [of "\<lparr>cfg_windows = [''main'', ''splashscreen''], cfg_os = Windows_os,
               cfg_monitor = No_monitor, cfg_sidecar_found = True, cfg_spawn_ok = False\<rparr>"
      "Expect_failed ''Failed to spawn server''"]
  by simp

text \<open>
  C13. On a working installation \<^verbatim>\<open>setup\<close> spawns exactly one child, the sidecar
  \<^verbatim>\<open>trame\<close> with the arguments \<^verbatim>\<open>--server --port 0 --timeout 10 --user-home\<close> and
  the environment \<^verbatim>\<open>PYTHONUNBUFFERED=1\<close>, and hands the router the windows as the
  scaling block left them.
\<close>

theorem app_setup_success:
  assumes "well_installed cfg"
  shows "app_setup cfg = Inr (dpi_setup (cfg_os cfg) (cfg_monitor cfg) initial_ui,
           \<lparr>cmd_program = ''trame'',
            cmd_args = [''--server'', ''--port'', ''0'', ''--timeout'', ''10'', ''--user-home''],
            cmd_env = Map.empty(''PYTHONUNBUFFERED'' \<mapsto> ''1'')\<rparr>)"
  using assms
  by (simp add: well_installed_def app_setup_eq launch_sidecar_eq trame_args_def trame_env_def)

theorem app_setup_success_witness:
  "well_installed \<lparr>cfg_windows = [''splashscreen'', ''main''], cfg_os = MacOS,
                    cfg_monitor = Monitor 2, cfg_sidecar_found = True, cfg_spawn_ok = True\<rparr>
   \<and> app_setup \<lparr>cfg_windows = [''splashscreen'', ''main''], cfg_os = MacOS,
                    cfg_monitor = Monitor 2, cfg_sidecar_found = True, cfg_spawn_ok = True\<rparr>
     = Inr (dpi_setup MacOS (Monitor 2) initial_ui,
           \<lparr>cmd_program = ''trame'',
            cmd_args = [''--server'', ''--port'', ''0'', ''--timeout'', ''10'', ''--user-home''],
            cmd_env = Map.empty(''PYTHONUNBUFFERED'' \<mapsto> ''1'')\<rparr>)"
proof -
  have h: "well_installed \<lparr>cfg_windows = [''splashscreen'', ''main''], cfg_os = MacOS,
                    cfg_monitor = Monitor 2, cfg_sidecar_found = True, cfg_spawn_ok = True\<rparr>"
    by (simp add: well_installed_def)
  show ?thesis using h app_setup_success [OF h] by simp
qed

end
