(* ===== verification/Router_Stream.thy ===== *)
theory Router_Stream
  imports Router_Loop
begin

text \<open>
  The receiver \<^verbatim>\<open>rx\<close> of \<^verbatim>\<open>main.rs\<close> (lines 79 and 80) as a channel.  The loop
  \<^verbatim>\<open>while let Some(event) = rx.recv().await\<close> ends when the channel closes, which Tauri
  does when the child's pipes are done, and the child may also keep printing for as long as
  the application runs.  A channel is modelled by what each \<^verbatim>\<open>recv\<close> returns in turn,
  \<open>Some\<close> event or \<open>None\<close> once closed; \<open>rx_loop\<close> is the loop over it, a
  \<^theory_text>\<open>partial_function (option)\<close> whose \<open>None\<close> is a task that never ends.  It returns
  exactly when the channel closes, with the state the list model \<open>event_loop\<close> computes
  from the events received before.
\<close>

subsection \<open>Definitions\<close>

type_synonym channel = "nat \<Rightarrow> timed_event option"

partial_function (option) rx_loop ::
  "target_os \<Rightarrow> channel \<Rightarrow> nat \<Rightarrow> router_state \<Rightarrow> router_state fallible option" where
  "rx_loop os rx i s =
     (case rx i of
        None \<Rightarrow> Some (Inr s)
      | Some (t, e) \<Rightarrow>
          (case handle_event os (recv t s) e of
             Inl p \<Rightarrow> Some (Inl p)
           | Inr s' \<Rightarrow> rx_loop os rx (Suc i) s'))"

text \<open>The events received from index \<open>i\<close> up to, not including, index \<open>k\<close>.\<close>

definition received :: "channel \<Rightarrow> nat \<Rightarrow> nat \<Rightarrow> timed_event list" where
  "received rx i k = map (\<lambda>j. the (rx j)) [i..<k]"

subsection \<open>Lemmas\<close>

lemma rx_loop_step:
  "rx i = Some (t, e) \<Longrightarrow> rx_loop os rx i s = rx_loop os rx (Suc i) (event_effect os (recv t s) e)"
  by (simp add: rx_loop.simps handle_event_eq)

lemma rx_loop_closed: "rx i = None \<Longrightarrow> rx_loop os rx i s = Some (Inr s)"
  by (simp add: rx_loop.simps)

lemma rx_loop_upto:
  assumes "i \<le> k" and "\<forall>j. i \<le> j \<and> j < k \<longrightarrow> rx j \<noteq> None"
  shows "rx_loop os rx i s = rx_loop os rx k (loop_effect os s (received rx i k))"
  using assms
proof (induction "k - i" arbitrary: i s)
  case 0
  then have "i = k" by simp
  then show ?case by (simp add: received_def)
next
  case (Suc n)
  then have ik: "i < k" by simp
  with Suc.prems obtain t e where ri: "rx i = Some (t, e)" by fastforce
  have r: "received rx i k = (t, e) # received rx (Suc i) k"
    using ik ri by (simp add: received_def upt_conv_Cons)
  have "rx_loop os rx (Suc i) (event_effect os (recv t s) e)
        = rx_loop os rx k (loop_effect os (event_effect os (recv t s) e) (received rx (Suc i) k))"
    using Suc.hyps(1) [of "Suc i"] Suc.hyps(2) Suc.prems by simp
  then show ?case using ri r by (simp add: rx_loop_step loop_effect_simps)
qed

text \<open>
  When the channel closes after \<open>k\<close> events, the receive loop returns the state the list
  model of the loop computes from those \<open>k\<close> events: the two models of the loop agree.
\<close>

lemma rx_loop_closes:
  assumes "rx k = None" and "\<forall>j<k. rx j \<noteq> None"
  shows "rx_loop os rx 0 s = Some (event_loop os s (received rx 0 k))"
  using rx_loop_upto [of 0 k rx os s] assms by (simp add: rx_loop_closed event_loop_eq)

lemma rx_loop_returns_closed:
  assumes "rx_loop os rx i s = Some r"
  shows "\<exists>k\<ge>i. rx k = None"
proof (rule rx_loop.raw_induct [where P = "\<lambda>os rx i s r. \<exists>k\<ge>i. rx k = None", OF _ assms])
  fix f os rx i s r
  assume IH: "\<And>os rx i s r. f os rx i s = Some r \<Longrightarrow> \<exists>k\<ge>i. rx k = None"
    and eq: "(case rx i of
        None \<Rightarrow> Some (Inr s)
      | Some (t, e) \<Rightarrow>
          (case handle_event os (recv t s) e of
             Inl p \<Rightarrow> Some (Inl p)
           | Inr s' \<Rightarrow> f os rx (Suc i) s')) = Some r"
  show "\<exists>k\<ge>i. rx k = None"
  proof (cases "rx i")
    case None
    then show ?thesis by blast
  next
    case (Some te)
    obtain t e where te: "te = (t, e)" by fastforce
    with Some eq have "f os rx (Suc i) (event_effect os (recv t s) e) = Some r"
      by (simp add: handle_event_eq)
    then obtain k where "Suc i \<le> k" "rx k = None" using IH by blast
    then show ?thesis by (intro exI [of _ k]) simp
  qed
qed

lemma rx_loop_closing_returns: "\<exists>k. rx k = None \<Longrightarrow> \<exists>s'. rx_loop os rx 0 s = Some (Inr s')"
proof -
  assume "\<exists>k. rx k = None"
  then obtain k where k: "rx k = None" "\<forall>j<k. rx j \<noteq> None"
    using exists_least_iff [of "\<lambda>k. rx k = None"] by blast
  then show "\<exists>s'. rx_loop os rx 0 s = Some (Inr s')"
    using rx_loop_upto [of 0 k rx os s] by (simp add: rx_loop_closed)
qed

text \<open>
  C20. Termination of the receive loop: it returns normally exactly when the channel closes at
  some point; on a channel that stays open it never returns, and it never panics.
\<close>

theorem rx_loop_terminates:
  "((\<exists>s'. rx_loop os rx 0 s = Some (Inr s')) \<longleftrightarrow> (\<exists>k. rx k = None))
   \<and> (rx_loop os rx 0 s = None \<longleftrightarrow> (\<forall>k. rx k \<noteq> None))"
proof
  show "(\<exists>s'. rx_loop os rx 0 s = Some (Inr s')) \<longleftrightarrow> (\<exists>k. rx k = None)"
    using rx_loop_returns_closed [of os rx 0 s] rx_loop_closing_returns [of rx os s] by blast
  show "rx_loop os rx 0 s = None \<longleftrightarrow> (\<forall>k. rx k \<noteq> None)"
  proof
    assume n: "rx_loop os rx 0 s = None"
    show "\<forall>k. rx k \<noteq> None"
    proof (rule ccontr)
      assume "\<not> (\<forall>k. rx k \<noteq> None)"
      then have "\<exists>k. rx k = None" by (simp only: not_all not_not)
      then obtain s' where "rx_loop os rx 0 s = Some (Inr s')"
        by (rule rx_loop_closing_returns [THEN exE]) blast
      with n show False by simp
    qed
  next
    assume a: "\<forall>k. rx k \<noteq> None"
    show "rx_loop os rx 0 s = None"
    proof (cases "rx_loop os rx 0 s")
      case (Some r)
      then have "\<exists>k\<ge>0. rx k = None" by (rule rx_loop_returns_closed)
      with a show ?thesis by blast
    qed
  qed
qed

end
