(* ===== verification/Script_Lit.thy ===== *)
theory Script_Lit
  imports Window
begin

text \<open>
  Where the port lands in the navigation script.  Line 103 of \<^verbatim>\<open>main.rs\<close> inserts the
  port, as the child printed it, between two single quotes of a JavaScript string literal
  (\<open>navigation_script_text\<close>, lines 90 to 104).  This theory scans that literal the way a
  JavaScript engine does (ECMAScript, SingleStringCharacters): \<open>js_sq_body\<close> reads the
  characters after an opening \<^verbatim>\<open>'\<close> up to the closing one and returns the literal's
  value with the text after it.  It decodes no escape sequence: on a backslash, and on a line
  terminator (which ends the literal with a syntax error), it returns \<open>None\<close>.  An escape
  sequence never denotes its own text, so a literal with one never has the value its characters
  spell, which is all the theorems below use.
\<close>

text \<open>A character that stands for itself inside a single-quoted literal.\<close>

definition js_plain_char :: "char \<Rightarrow> bool" where
  "js_plain_char c \<longleftrightarrow> c \<noteq> CHR 0x27 \<and> c \<noteq> CHR 0x5C \<and> c \<noteq> CHR 0x0A \<and> c \<noteq> CHR 0x0D"

text \<open>The body of a single-quoted literal: its value and the text after the closing quote.\<close>

fun js_sq_body :: "rstr \<Rightarrow> (rstr \<times> rstr) option" where
  "js_sq_body [] = None"
| "js_sq_body (c # cs) =
     (if c = CHR 0x27 then Some ([], cs)
      else if js_plain_char c then map_option (\<lambda>(v, r). (c # v, r)) (js_sq_body cs)
      else None)"

text \<open>
  The navigation script up to the opening quote of its literal, and the text after the
  literal's closing quote, which does not depend on the port.
\<close>

definition nav_head :: rstr where
  "nav_head = ''\<newline>'' @ indent 18 @ ''window.location.replace(window.location.href + ''"

definition nav_tail :: rstr where
  "nav_tail = drop (length (nav_head @ [CHR 0x27] @ ''?sessionURL='' @ session_url '''' @ [CHR 0x27]))
                (navigation_script_text '''')"

subsection \<open>Lemmas\<close>

lemma js_sq_body_plain:
  "list_all js_plain_char v \<Longrightarrow> js_sq_body (v @ CHR 0x27 # r) = Some (v, r)"
  by (induction v) (auto simp: js_plain_char_def)

lemma navigation_script_split:
  "navigation_script_text port =
     nav_head @ CHR 0x27 # ''?sessionURL=ws://localhost:'' @ port @ ''/ws'' @ CHR 0x27 # nav_tail"
  by (simp add: navigation_script_text_def nav_head_def nav_tail_def session_url_def indent_def)

lemma js_sq_body_first_special:
  "list_all js_plain_char a \<Longrightarrow> \<not> js_plain_char c
   \<Longrightarrow> js_sq_body (a @ c # r) = (if c = CHR 0x27 then Some (a, r) else None)"
  by (induction a) (auto simp: js_plain_char_def)

lemma list_all_first_not:
  "\<not> list_all P xs \<Longrightarrow> \<exists>a c b. xs = a @ c # b \<and> list_all P a \<and> \<not> P c"
proof (induction xs)
  case Nil
  then show ?case by simp
next
  case (Cons x xs)
  show ?case
  proof (cases "P x")
    case True
    with Cons obtain a c b where "xs = a @ c # b" "list_all P a" "\<not> P c" by auto
    with True show ?thesis by (intro exI [of _ "x # a"]) auto
  next
    case False
    then show ?thesis by (intro exI [of _ "[]"]) auto
  qed
qed

text \<open>
  C21. The navigation script opens its first string literal right before
  \<^verbatim>\<open>?sessionURL=\<close> (nothing before it starts a literal or a comment), and that literal
  has exactly the websocket URL of the port as its value, ending right after \<^verbatim>\<open>/ws\<close>,
  if and only if the port contains no quote, backslash or line terminator.
\<close>

theorem navigation_literal_iff:
  "list_all (\<lambda>c. c \<notin> set [CHR 0x27, CHR 0x22, CHR 0x60, CHR ''/'']) nav_head
   \<and> (js_sq_body (drop (Suc (length nav_head)) (navigation_script_text port))
     = Some (''?sessionURL='' @ session_url port, nav_tail)
   \<longleftrightarrow> list_all js_plain_char port)"
proof -
  let ?pre = "''?sessionURL=ws://localhost:''"
  have body: "drop (Suc (length nav_head)) (navigation_script_text port)
      = ?pre @ port @ ''/ws'' @ CHR 0x27 # nav_tail"
    by (simp add: navigation_script_split)
  have pre: "list_all js_plain_char ?pre" and ws: "list_all js_plain_char ''/ws''"
    by (simp_all add: js_plain_char_def)
  have head: "list_all (\<lambda>c. c \<notin> set [CHR 0x27, CHR 0x22, CHR 0x60, CHR ''/'']) nav_head"
    by (simp add: nav_head_def indent_def list_all_iff)
  show ?thesis
  proof (intro conjI [OF head] iffI)
    assume lit: "js_sq_body (drop (Suc (length nav_head)) (navigation_script_text port))
      = Some (''?sessionURL='' @ session_url port, nav_tail)"
    show "list_all js_plain_char port"
    proof (rule ccontr)
      assume "\<not> list_all js_plain_char port"
      then obtain a c b where port: "port = a @ c # b" and a: "list_all js_plain_char a"
        and c: "\<not> js_plain_char c"
        using list_all_first_not by blast
      have "js_sq_body (?pre @ port @ ''/ws'' @ CHR 0x27 # nav_tail)
          = (if c = CHR 0x27 then Some (?pre @ a, b @ ''/ws'' @ CHR 0x27 # nav_tail) else None)"
        using js_sq_body_first_special [of "?pre @ a" c "b @ ''/ws'' @ CHR 0x27 # nav_tail"] pre a c
        by (simp add: port)
      with lit body port show False by (simp add: session_url_def split: if_splits)
    qed
  next
    assume "list_all js_plain_char port"
    with pre ws have "list_all js_plain_char (?pre @ port @ ''/ws'')" by simp
    then show "js_sq_body (drop (Suc (length nav_head)) (navigation_script_text port))
      = Some (''?sessionURL='' @ session_url port, nav_tail)"
      using js_sq_body_plain [of "?pre @ port @ ''/ws''" nav_tail] body
      by (simp add: session_url_def)
  qed
qed

text \<open>
  C22. The port can break out of the literal: if it is some text followed by a quote and more
  text, the literal closes at that quote and everything after it in the port is read as
  JavaScript code of the navigation statement.  The child's output thus decides code that runs
  in the main webview.
\<close>

theorem navigation_literal_breakout:
  assumes "list_all js_plain_char a"
  shows "js_sq_body (drop (Suc (length nav_head)) (navigation_script_text (a @ CHR 0x27 # b)))
           = Some (''?sessionURL=ws://localhost:'' @ a, b @ ''/ws'' @ CHR 0x27 # nav_tail)"
proof -
  have "list_all js_plain_char (''?sessionURL=ws://localhost:'' @ a)"
    using assms by (simp add: js_plain_char_def)
  then show ?thesis
    by (simp add: navigation_script_split js_sq_body_plain)
qed

theorem navigation_literal_breakout_witness:
  "list_all js_plain_char ''0''
   \<and> js_sq_body (drop (Suc (length nav_head))
        (navigation_script_text (''0'' @ CHR 0x27 # '');alert(1);//'')))
     = Some (''?sessionURL=ws://localhost:0'', '');alert(1);///ws'' @ CHR 0x27 # nav_tail)"
proof -
  have a: "list_all js_plain_char ''0''" by (simp add: js_plain_char_def)
  show ?thesis using a navigation_literal_breakout [OF a, of "'');alert(1);//''"] by simp
qed

end
