(* ===== verification/Spec2Isabelle.thy ===== *)
theory Spec2Isabelle
  imports Setup Router_Stream Script_Lit
begin

text \<open>
  \<^bold>\<open>A verified model of the QuickView desktop launcher.\<close>

  The repository's program is one Rust file, \<^verbatim>\<open>src/src-tauri/src/main.rs\<close>, a Tauri
  application.  Its \<^verbatim>\<open>setup\<close> closure looks up the windows \<^verbatim>\<open>splashscreen\<close> and
  \<^verbatim>\<open>main\<close>, applies display-scaling overrides on macOS, spawns the bundled server
  \<^verbatim>\<open>trame\<close> as a sidecar process, and starts one asynchronous task, the event router,
  which reads the child's events in order.  On a stdout line with \<^verbatim>\<open>tauri-server-port=\<close>
  the router extracts the port and makes the main webview navigate to
  \<^verbatim>\<open>ws://localhost:PORT/ws\<close>; on a line with \<^verbatim>\<open>tauri-client-ready\<close> it sleeps two
  seconds, closes the splash window and shows the main window.  Other events are printed.

  \<^bold>\<open>Theories.\<close>
  \<^item> \<open>Prelude\<close>: strings as code-point lists (\<open>rstr\<close>), Rust panics as the datatype
    \<open>panic\<close> and fallible results \<open>panic + 'a\<close> sequenced by \<open>pbind\<close>, generic list
    lemmas, the collection \<open>launcher_simps\<close>.
  \<^item> \<open>Rust_Str\<close>: the standard-library operations the router calls on a line (lines 84 to
    87): \<^verbatim>\<open>str::contains\<close> (\<open>str_contains\<close>), \<^verbatim>\<open>str::split\<close> with a string
    pattern (\<open>split_scan\<close>, \<open>str_split\<close>, a \<^theory_text>\<open>function\<close> with a length
    measure), \<^verbatim>\<open>Vec\<close> indexing that panics out of range (\<open>vec_index\<close>) and
    \<^verbatim>\<open>str::trim\<close> with Unicode whitespace (\<open>str_trim\<close>).
  \<^item> \<open>Sidecar\<close> (process supervisor, lines 69 to 77 and the event types): the command
    record and its builder calls (\<open>new_sidecar\<close>, \<open>command_args\<close>,
    \<open>command_envs\<close>, \<open>spawn\<close>, \<open>launch_sidecar\<close>), Tauri's \<open>command_event\<close>
    with the \<^verbatim>\<open>i32\<close> exit status as \<open>32 word\<close>, and the launcher's console lines with
    their text (\<open>console_text\<close>, \<^verbatim>\<open>Debug\<close> of the payload).
  \<^item> \<open>Window\<close> (window manager): the window state \<open>windows\<close>, extended by the
    console to \<open>ui_state\<close>; the operations \<open>eval_main\<close>, \<open>set_main_size\<close>,
    \<open>close_splash\<close>, \<open>show_main\<close>, \<open>print_line\<close>; the navigation script text;
    the macOS scaling block \<open>dpi_setup\<close> (lines 18 to 67).
  \<^item> \<open>Router\<close> (event router, the body of the loop, lines 81 to 145):
    \<open>router_state\<close> adds a clock in milliseconds; \<open>extract_port\<close>,
    \<open>reveal_main\<close>, \<open>handle_stdout\<close>, \<open>handle_event\<close> (one arm of the
    \<^verbatim>\<open>match\<close>); their closed forms \<open>stdout_effect\<close> and \<open>event_effect\<close>; the
    contract of section 4.2 of the specification (\<open>spec_event\<close> with the abstraction
    \<open>abs_router\<close>).
  \<^item> \<open>Router_Loop\<close> (the loop, lines 80 to 146): \<open>recv\<close> and \<open>event_loop\<close>, the
    \<^verbatim>\<open>while let\<close> loop over the timed events the channel delivers before it closes, its
    closed form \<open>loop_effect\<close> (a fold) and the reachable states (\<open>router_reachable\<close>,
    an inductive relation).
  \<^item> \<open>Router_Stream\<close>: the receiver \<^verbatim>\<open>rx\<close> (lines 79 and 80) as a channel that
    may close or stay open, with the \<^verbatim>\<open>while let\<close> loop over it \<open>rx_loop\<close>, a
    \<^theory_text>\<open>partial_function (option)\<close> whose \<open>None\<close> is a task that never ends.
  \<^item> \<open>Script_Lit\<close>: a scanner of single-quoted JavaScript string literals
    (\<open>js_sq_body\<close>), used to locate the port inside the navigation script.
  \<^item> \<open>Setup\<close>: \<open>app_setup\<close> (the \<^verbatim>\<open>setup\<close> closure, a missing window or a failed
    sidecar a panic), \<open>run_app\<close>, setup followed by the router loop, and \<open>main_run\<close>,
    \<^verbatim>\<open>main\<close> with the \<^verbatim>\<open>expect\<close> on \<^verbatim>\<open>Builder::run\<close>; the installation is the
    input record \<open>app_config\<close>.
  \<^item> this theory: properties of the whole run.

  \<^bold>\<open>What is proved.\<close>  The router never panics (C1): the \<^verbatim>\<open>tokens[1]\<close> of line 86
  is always in range because the port marker contains \<^verbatim>\<open>=\<close>.  The main window ends up
  shown exactly when a readiness line arrived (C2, C16), never earlier than two seconds after
  it (C7), and with exactly one of the two windows shown in every reachable state (C5).  The
  port and readiness arms behave as the code says (C3, C4, C8, C10), and the router implements
  the specification's contract on lines with at most one \<^verbatim>\<open>=\<close> (C6); on a line with an
  earlier \<^verbatim>\<open>=\<close> it does not, because the code takes the piece between the first and
  second \<^verbatim>\<open>=\<close>, not the trailing token (C9).  A readiness line with no port line before
  it shows the main window without any navigation (C11).  Setup panics in exactly three ways
  (C12, C17) and otherwise spawns exactly the one \<^verbatim>\<open>trame\<close> command (C13); the scaling
  block resizes only on macOS above scale 1.5 (C14); the launch with a well-behaved server
  shows the navigated main window (C15).  The \<^verbatim>\<open>[Trame exited]\<close> line reads back as the
  signed exit code and signal (C18), and the task prints one console line per event in arrival
  order (C19).  The \<^verbatim>\<open>while let\<close> loop over a channel returns exactly when the channel
  closes and never returns on a channel that stays open (C20).  The port lands inside the
  navigation script's string literal, whose value is then exactly the websocket URL, if and
  only if it has no quote, backslash or line terminator (C21); a port with a quote ends the
  literal and the rest of it is run as JavaScript in the main webview (C22).  The extracted
  port has no \<^verbatim>\<open>=\<close> and no surrounding whitespace (C23), and a run evaluates its
  scripts in a determined order (C24).  Stderr lines, child errors and the exit status are only
  logged: they never change the windows, the scripts or the clock (C25), as sections 6 and 7 of
  the specification say.  Each readiness line costs the task exactly its two-second sleep,
  which bounds its clock between the latest arrival and that plus two seconds per readiness
  line (C26), and an event arriving during the sleep is taken from the channel only when the
  sleep is over (C27).  The string operations of \<open>Rust_Str\<close> come with lemmas that check
  the model against the standard library's contracts (split and join, trim, substring
  search); they are about the library model, not claims about the launcher.

  \<^bold>\<open>Modelling choices.\<close>  Time is a natural number of milliseconds; a receive moves the
  clock to the event's arrival time, the sleep adds 2000, and nothing else takes time.  The
  list model \<open>event_loop\<close> takes the events the channel delivers before it closes and needs
  no fuel; \<open>rx_loop\<close> takes the channel itself and may not return, which C20 settles.
  Whether Tauri builds the application is an input of \<open>main_run\<close>.  Characters
  are code points 0 to 255.

  \<^bold>\<open>Not modelled.\<close>  The \<^verbatim>\<open>cfg_attr\<close> of lines 1 to 4 (a linker setting with no
  behaviour).  The child process \<^verbatim>\<open>trame\<close> itself and Tauri's splitting of its output
  into line events, and Tauri's supervision of the child: external and library code, of which
  the specification says only that one child's events arrive in order; the model starts from
  the events the channel delivers.  The webview's execution of the
  scripts: only their text and order are modelled.  Failures of \<^verbatim>\<open>close\<close> and
  \<^verbatim>\<open>show\<close> (lines 131 and 132): Tauri returns an error there only when its own event loop
  has stopped, when the process is exiting, so the \<^verbatim>\<open>unwrap\<close> panics are not reachable in
  a state the model has.  The decimal text of the \<^verbatim>\<open>f64\<close> scale factor printed on line 26.

  \<^bold>\<open>Plan.\<close>  Done: the router (the program's core) on event lists and channels; the
  string operations it relies on; setup, \<^verbatim>\<open>main\<close>, the sidecar command and the console;
  where the port lands in the navigation script.  What remains of \<^verbatim>\<open>main.rs\<close> is listed above as not modelled.
\<close>

subsection \<open>The whole run\<close>

text \<open>
  C15. On a working installation, a server that announces its port and then its readiness
  leads to the main window shown, the splash window closed, and exactly one navigation, to
  the websocket URL of the announced port.
\<close>

theorem run_app_end_to_end:
  assumes "well_installed cfg" and "CHR ''='' \<notin> set p"
    and "\<not> str_contains (port_marker @ p) ready_marker"
  shows "\<exists>s'. run_app cfg [(t1, Stdout (port_marker @ p)), (t2, Stdout ready_marker)] = Inr s'
              \<and> main_visible s' \<and> \<not> splash_open s'
              \<and> nav_urls (main_scripts s') = [session_url (str_trim p)]"
proof -
  from assms(1) obtain u c where st: "app_setup cfg = Inr (u, c)"
    using app_setup_Inr_iff by fastforce
  then have "nav_urls (main_scripts u) = []" using app_setup_start_state by blast
  then show ?thesis
    by (simp add: run_app_eq st loop_effect_port_then_ready [OF assms(2,3)] Let_def
        router_init_def del: loop_effect_simps)
qed

theorem run_app_end_to_end_witness:
  "well_installed \<lparr>cfg_windows = [''splashscreen'', ''main''], cfg_os = Linux_os, cfg_monitor = No_monitor, cfg_sidecar_found = True, cfg_spawn_ok = True\<rparr> \<and> CHR ''='' \<notin> set '' 8765\<newline>''
   \<and> \<not> str_contains (port_marker @ '' 8765\<newline>'') ready_marker
   \<and> (\<exists>s'. run_app \<lparr>cfg_windows = [''splashscreen'', ''main''], cfg_os = Linux_os, cfg_monitor = No_monitor, cfg_sidecar_found = True, cfg_spawn_ok = True\<rparr> [(120, Stdout (port_marker @ '' 8765\<newline>'')), (900, Stdout ready_marker)] = Inr s'
         \<and> main_visible s' \<and> \<not> splash_open s'
         \<and> nav_urls (main_scripts s') = [session_url (str_trim '' 8765\<newline>'')])"
proof -
  have h1: "well_installed \<lparr>cfg_windows = [''splashscreen'', ''main''], cfg_os = Linux_os, cfg_monitor = No_monitor, cfg_sidecar_found = True, cfg_spawn_ok = True\<rparr>" by (simp add: well_installed_def)
  have h2: "CHR ''='' \<notin> set '' 8765\<newline>''" by simp
  have h3: "\<not> str_contains (port_marker @ '' 8765\<newline>'') ready_marker"
    by (simp add: port_marker_def ready_marker_def)
  show ?thesis using h1 h2 h3 run_app_end_to_end [OF h1 h2 h3, of 120 900] by blast
qed

text \<open>
  C16. On a working installation the run always completes without a panic, and at its end the
  main window is shown exactly when some stdout line carried the readiness marker, with the
  splash window open exactly when the main window is not.
\<close>

theorem run_app_reveals_iff:
  assumes "well_installed cfg"
  shows "\<exists>s'. run_app cfg es = Inr s'
              \<and> (main_visible s' \<longleftrightarrow> (\<exists>t line. (t, Stdout line) \<in> set es \<and> str_contains line ready_marker))
              \<and> (splash_open s' \<longleftrightarrow> \<not> main_visible s')"
proof -
  from assms obtain u c where st: "app_setup cfg = Inr (u, c)"
    using app_setup_Inr_iff by fastforce
  then have u: "splash_open u" "\<not> main_visible u" using app_setup_start_state by blast+
  have "(\<exists>te\<in>set es. ready_event (snd te))
        \<longleftrightarrow> (\<exists>t line. (t, Stdout line) \<in> set es \<and> str_contains line ready_marker)"
    by (force simp: ready_event_iff)
  with u show ?thesis
    by (simp add: run_app_eq st loop_effect_visible loop_effect_splash router_init_def)
qed

theorem run_app_reveals_iff_witness:
  "well_installed \<lparr>cfg_windows = [''splashscreen'', ''main''], cfg_os = Linux_os, cfg_monitor = No_monitor, cfg_sidecar_found = True, cfg_spawn_ok = True\<rparr>
   \<and> (\<exists>s'. run_app \<lparr>cfg_windows = [''splashscreen'', ''main''], cfg_os = Linux_os, cfg_monitor = No_monitor, cfg_sidecar_found = True, cfg_spawn_ok = True\<rparr> [(5, Stderr ''starting''), (9, Stdout ''tauri-client-ready'')] = Inr s'
         \<and> (main_visible s' \<longleftrightarrow> (\<exists>t line. (t, Stdout line) \<in> set [(5::nat, Stderr ''starting''), (9, Stdout ''tauri-client-ready'')]
                                   \<and> str_contains line ready_marker))
         \<and> (splash_open s' \<longleftrightarrow> \<not> main_visible s'))"
proof -
  have h: "well_installed \<lparr>cfg_windows = [''splashscreen'', ''main''], cfg_os = Linux_os, cfg_monitor = No_monitor, cfg_sidecar_found = True, cfg_spawn_ok = True\<rparr>" by (simp add: well_installed_def)
  show ?thesis using h run_app_reveals_iff [OF h, of "[(5, Stderr ''starting''), (9, Stdout ''tauri-client-ready'')]"]
    by blast
qed

text \<open>
  C17. The only panics of the whole application are those of \<^verbatim>\<open>setup\<close>: a run panics
  exactly when the installation is broken (a window missing, the sidecar missing or not
  spawnable), whatever the child prints afterwards.
\<close>

theorem run_app_panics_iff: "(\<exists>p. run_app cfg es = Inl p) \<longleftrightarrow> \<not> well_installed cfg"
proof -
  have "(\<exists>p. run_app cfg es = Inl p) \<longleftrightarrow> (\<exists>p. app_setup cfg = Inl p)"
    by (cases "app_setup cfg") (auto simp: run_app_eq)
  also have "\<dots> \<longleftrightarrow> \<not> (\<exists>r. app_setup cfg = Inr r)"
    by (cases "app_setup cfg") auto
  finally show ?thesis using app_setup_Inr_iff [of cfg] by blast
qed

text \<open>
  C24. The scripts a run evaluates in the main webview, in order: on macOS with a monitor the
  scaling script of \<^verbatim>\<open>setup\<close> first, then for each event in arrival order its
  navigation script (a port line) followed by the final scaling script (a readiness line, on
  macOS only).
\<close>

theorem run_app_scripts:
  assumes "well_installed cfg"
  shows "\<exists>s'. run_app cfg es = Inr s'
           \<and> main_scripts s'
             = (if cfg_os cfg = MacOS \<and> (\<exists>sf. cfg_monitor cfg = Monitor sf) then [Dpi_override] else [])
               @ concat (map (event_scripts (cfg_os cfg) \<circ> snd) es)"
  using assms
  by (auto simp: run_app_eq app_setup_eq well_installed_def launch_sidecar_eq loop_effect_scripts
      router_init_def initial_ui_def split: monitor_lookup.splits)

theorem run_app_scripts_witness:
  "well_installed \<lparr>cfg_windows = [''splashscreen'', ''main''], cfg_os = MacOS,
                    cfg_monitor = Monitor 2, cfg_sidecar_found = True, cfg_spawn_ok = True\<rparr>
   \<and> (\<exists>s'. run_app \<lparr>cfg_windows = [''splashscreen'', ''main''], cfg_os = MacOS,
                    cfg_monitor = Monitor 2, cfg_sidecar_found = True, cfg_spawn_ok = True\<rparr>
                 [(0, Stdout ''tauri-server-port=8080''), (5, Stdout ''tauri-client-ready'')] = Inr s'
             \<and> main_scripts s' = [Dpi_override, Navigation ''8080'', Final_dpi_override])"
proof -
  have h: "well_installed \<lparr>cfg_windows = [''splashscreen'', ''main''], cfg_os = MacOS,
                    cfg_monitor = Monitor 2, cfg_sidecar_found = True, cfg_spawn_ok = True\<rparr>"
    by (simp add: well_installed_def)
  have sc: "event_scripts MacOS (Stdout ''tauri-server-port=8080'') = [Navigation ''8080'']"
    "event_scripts MacOS (Stdout ''tauri-client-ready'') = [Final_dpi_override]"
    by (simp_all add: event_scripts_def port_marker_def ready_marker_def str_split_def
        split_scan.simps str_trim_def rust_is_whitespace_def)
  show ?thesis
    using h run_app_scripts [OF h, of "[(0, Stdout ''tauri-server-port=8080''), (5, Stdout ''tauri-client-ready'')]"]
    by (simp add: sc)
qed

end
